theory Spec2Isabelle
  imports Main
begin

section \<open>Data model (types.ts)\<close>

text \<open>
  Modelled from the spec: the constant \<open>SIZE\<close> exported by \<^verbatim>\<open>types.ts\<close>, the side length
  N of the cubic board (N = 8). App.tsx hard-codes the matching values 7 (promotion rank,
  castle rook file).
\<close>

definition SIZE :: int where
  "SIZE = 8"

text \<open>
  Modelled from the spec: the type \<open>Piece\<close> of \<^verbatim>\<open>types.ts\<close>. The role is the string
  \<open>piece.type\<close>, one of 'P', 'R', 'N', 'B', 'Q', 'K'; the side is \<open>piece.color\<close>, 'white'
  or 'black'. The fields \<open>x\<close>, \<open>y\<close>, \<open>z\<close> of the source are \<open>px\<close>, \<open>py\<close>, \<open>pz\<close> here.
\<close>

datatype ptype = P | R | N | B | Q | K

datatype color = White | Black

record piece =
  ptype :: ptype
  color :: color
  px :: int
  py :: int
  pz :: int
  hasMoved :: bool

text \<open>
  Modelled from the spec: the type \<open>Move\<close> of \<^verbatim>\<open>types.ts\<close>: target coordinates (\<open>mx\<close>,
  \<open>my\<close>, \<open>mz\<close> for the source's \<open>x\<close>, \<open>y\<close>, \<open>z\<close>), the capture flag and the optional
  castle tag ('king' or 'queen'; absent is \<open>None\<close>).
\<close>

datatype castle_side = KingSide | QueenSide

record move =
  mx :: int
  my :: int
  mz :: int
  capture :: bool
  castle :: "castle_side option"

text \<open>
  \<open>BoardState\<close> is a nested JavaScript array \<open>(Piece | null)[][][]\<close>, read and written as
  \<open>boardState[x][y][z]\<close>. It is modelled as a store from the address \<open>(x, y, z)\<close> to the
  cell's content (\<open>None\<close> for null, undefined or a hole). The two outer arrays always have
  exactly \<open>SIZE\<close> entries: an access with \<open>x\<close> or \<open>y\<close> outside \<open>[0, SIZE)\<close> reaches
  \<open>undefined[...]\<close> and throws a TypeError before anything is written, which \<open>get3\<close> and
  \<open>set3\<close> below write out. The innermost index is a property of the row array: a read
  outside the array gives undefined, a write at any integer index stores the value.
\<close>

type_synonym board = "int \<times> int \<times> int \<Rightarrow> piece option"

section \<open>Move generation (lib/gameLogic.ts)\<close>

definition isWithinBounds :: "int \<Rightarrow> int \<Rightarrow> int \<Rightarrow> bool" where
  "isWithinBounds x y z \<longleftrightarrow>
     x \<ge> 0 \<and> x < SIZE \<and> y \<ge> 0 \<and> y < SIZE \<and> z \<ge> 0 \<and> z < SIZE"

text \<open>The object literal \<open>{ x, y, z, capture }\<close> pushed by the generator: no castle tag.\<close>

definition mk_move :: "int \<Rightarrow> int \<Rightarrow> int \<Rightarrow> bool \<Rightarrow> move" where
  "mk_move x y z c = \<lparr>mx = x, my = y, mz = z, capture = c, castle = None\<rparr>"

definition zDir :: "color \<Rightarrow> int" where
  "zDir c = (if c = White then 1 else -1)"

definition startLayer :: "color \<Rightarrow> int" where
  "startLayer c = (if c = White then 1 else 6)"

text \<open>Lines 66-75: the forward step and, nested inside it, the double step.\<close>

definition pawnForward :: "piece \<Rightarrow> board \<Rightarrow> move list" where
  "pawnForward p boardState =
     (let moveZ = pz p + zDir (color p) in
      if isWithinBounds (px p) (py p) moveZ \<and> boardState (px p, py p, moveZ) = None then
        [mk_move (px p) (py p) moveZ False] @
        (if pz p = startLayer (color p) then
           (let doubleMoveZ = pz p + zDir (color p) * 2 in
            if isWithinBounds (px p) (py p) doubleMoveZ
               \<and> boardState (px p, py p, doubleMoveZ) = None
            then [mk_move (px p) (py p) doubleMoveZ False] else [])
         else [])
      else [])"

text \<open>Lines 76-82: the two nested \<open>for ... of [-1, 0, 1]\<close> loops with \<open>continue\<close>.\<close>

definition threeDDirections :: "int \<Rightarrow> (int \<times> int \<times> int) list" where
  "threeDDirections dz =
     concat (map (\<lambda>dx. concat (map (\<lambda>dy. if dx = 0 \<and> dy = 0 then [] else [(dx, dy, dz)])
                                     [-1, 0, 1]))
                 [-1, 0, 1])"

text \<open>Lines 84-94: one round of the capture loop; \<open>moves\<close> is the list pushed to.\<close>

definition pawnCaptureStep :: "piece \<Rightarrow> board \<Rightarrow> int \<times> int \<times> int \<Rightarrow> move list \<Rightarrow> move list" where
  "pawnCaptureStep p boardState d moves =
     (case d of (dx, dy, dz) \<Rightarrow>
        (let tx = px p + dx; ty = py p + dy; tz = pz p + dz in
         if isWithinBounds tx ty tz then
           (case boardState (tx, ty, tz) of
              Some targetPiece \<Rightarrow>
                if color targetPiece \<noteq> color p then moves @ [mk_move tx ty tz True] else moves
            | None \<Rightarrow> moves)
         else moves))"

text \<open>Lines 96-103.\<close>

definition permutations :: "(int \<times> int \<times> int) list" where
  "permutations =
     [(2, 1, 0), (2, -1, 0), (-2, 1, 0), (-2, -1, 0),
      (1, 2, 0), (1, -2, 0), (-1, 2, 0), (-1, -2, 0),
      (2, 0, 1), (2, 0, -1), (-2, 0, 1), (-2, 0, -1),
      (1, 0, 2), (1, 0, -2), (-1, 0, 2), (-1, 0, -2),
      (0, 2, 1), (0, 2, -1), (0, -2, 1), (0, -2, -1),
      (0, 1, 2), (0, 1, -2), (0, -1, 2), (0, -1, -2)]"

text \<open>Lines 105-113: one round of the knight loop; \<open>capture: !!targetPiece\<close>.\<close>

definition knightStep :: "piece \<Rightarrow> board \<Rightarrow> int \<times> int \<times> int \<Rightarrow> move list \<Rightarrow> move list" where
  "knightStep p boardState d moves =
     (case d of (dx, dy, dz) \<Rightarrow>
        (let tx = px p + dx; ty = py p + dy; tz = pz p + dz in
         if isWithinBounds tx ty tz then
           (case boardState (tx, ty, tz) of
              None \<Rightarrow> moves @ [mk_move tx ty tz False]
            | Some targetPiece \<Rightarrow>
                if color targetPiece \<noteq> color p then moves @ [mk_move tx ty tz True] else moves)
         else moves))"

text \<open>Lines 115-123: three nested counting loops from -1 to 1, skipping the zero vector.\<close>

definition all3DDirections :: "(int \<times> int \<times> int) list" where
  "all3DDirections =
     concat (map (\<lambda>dx. concat (map (\<lambda>dy. concat (map (\<lambda>dz.
        if dx = 0 \<and> dy = 0 \<and> dz = 0 then [] else [(dx, dy, dz)])
      [-1, 0, 1])) [-1, 0, 1])) [-1, 0, 1])"

definition absSum :: "int \<times> int \<times> int \<Rightarrow> int" where
  "absSum d = (case d of (dx, dy, dz) \<Rightarrow> \<bar>dx\<bar> + \<bar>dy\<bar> + \<bar>dz\<bar>)"

text \<open>
  Lines 133-134: \<open>new Set(rayDirections.map(d => d.join(',')))\<close> and back. A Set keeps the
  first occurrence of each key in insertion order; joining and splitting three of -1, 0, 1
  gives the triple back.
\<close>

definition uniqueDirections :: "(int \<times> int \<times> int) list \<Rightarrow> (int \<times> int \<times> int) list" where
  "uniqueDirections ds = fold (\<lambda>d seen. if d \<in> set seen then seen else seen @ [d]) ds []"

text \<open>Lines 125-134.\<close>

definition rayDirections :: "ptype \<Rightarrow> (int \<times> int \<times> int) list" where
  "rayDirections t =
     uniqueDirections
       ((if t = R \<or> t = Q \<or> t = K then filter (\<lambda>d. absSum d = 1) all3DDirections else []) @
        (if t = B \<or> t = Q \<or> t = K then filter (\<lambda>d. absSum d > 1) all3DDirections else []))"

definition maxDistance :: "ptype \<Rightarrow> int" where
  "maxDistance t = (if t = K then 1 else SIZE)"

text \<open>
  Lines 139-151: the loop \<open>for (let k = 1; k <= maxDistance; k++)\<close> along one ray, from the
  current \<open>k\<close>; each \<open>break\<close> returns the moves pushed so far.
\<close>

function walkRay ::
  "piece \<Rightarrow> board \<Rightarrow> int \<times> int \<times> int \<Rightarrow> int \<Rightarrow> int \<Rightarrow> move list \<Rightarrow> move list" where
  "walkRay p boardState (dx, dy, dz) maxD k moves =
     (if k \<le> maxD then
        (let tx = px p + dx * k; ty = py p + dy * k; tz = pz p + dz * k in
         if \<not> isWithinBounds tx ty tz then moves
         else
           (case boardState (tx, ty, tz) of
              Some targetPiece \<Rightarrow>
                if color targetPiece \<noteq> color p then moves @ [mk_move tx ty tz True]
                else moves
            | None \<Rightarrow> walkRay p boardState (dx, dy, dz) maxD (k + 1)
                        (moves @ [mk_move tx ty tz False])))
      else moves)"
  by pat_completeness auto
termination
  by (relation "measure (\<lambda>(p, b, d, maxD, k, moves). nat (maxD + 1 - k))") auto

declare walkRay.simps [simp del]

text \<open>Lines 59-155. The three branches of \<open>if (type === 'P') ... else if (type === 'N') ... else\<close>.\<close>

definition calculateValidMoves :: "piece \<Rightarrow> board \<Rightarrow> move list" where
  "calculateValidMoves p boardState =
     (if ptype p = P then
        fold (pawnCaptureStep p boardState) (threeDDirections (zDir (color p)))
          (pawnForward p boardState)
      else if ptype p = N then
        fold (knightStep p boardState) permutations []
      else
        fold (\<lambda>d moves. walkRay p boardState d (maxDistance (ptype p)) 1 moves)
          (rayDirections (ptype p)) [])"

text \<open>
  Lines 5-53. \<open>MAJOR_PIECE_PATTERN[y][x]\<close> is the character of row \<open>y\<close>, column \<open>x\<close>.
\<close>

definition MAJOR_PIECE_PATTERN :: "string list" where
  "MAJOR_PIECE_PATTERN =
     [''rnbrrbnr'',
      ''nnbqqbnn'',
      ''bbbqqbbb'',
      ''rqqqkqqr'',
      ''rqqqqqqr'',
      ''bbbqqbbb'',
      ''nnbqqbnn'',
      ''rnbrrbnr'']"

definition PAWN_ROW :: string where
  "PAWN_ROW = ''pppppppp''"

text \<open>
  \<open>char.toUpperCase() as Piece['type']\<close>: the cast is unchecked in the source. The
  pattern strings hold only the letters below, for which the role exists.
\<close>

definition pieceKey :: "char \<Rightarrow> ptype option" where
  "pieceKey c =
     (if c = CHR ''p'' then Some P
      else if c = CHR ''r'' then Some R
      else if c = CHR ''n'' then Some N
      else if c = CHR ''b'' then Some B
      else if c = CHR ''q'' then Some Q
      else if c = CHR ''k'' then Some K
      else None)"

definition layerPattern :: "int \<Rightarrow> string list option" where
  "layerPattern z =
     (if z = 0 then Some MAJOR_PIECE_PATTERN
      else if z = 1 then Some (replicate (nat SIZE) PAWN_ROW)
      else if z = 6 then Some (replicate (nat SIZE) PAWN_ROW)
      else if z = 7 then Some MAJOR_PIECE_PATTERN
      else None)"

text \<open>Lines 38-47: the body of the innermost loop, for one cell.\<close>

definition placeCell :: "string \<Rightarrow> bool \<Rightarrow> int \<Rightarrow> int \<Rightarrow> int \<Rightarrow> board \<Rightarrow> board" where
  "placeCell rowString isWhite z y x state =
     (let char = rowString ! nat x in
      if char \<noteq> CHR '' '' then
        (case pieceKey char of
           Some t \<Rightarrow>
             state((x, y, z) :=
               Some \<lparr>ptype = t, color = (if isWhite then White else Black),
                     px = x, py = y, pz = z, hasMoved = False\<rparr>)
         | None \<Rightarrow> state)
      else state)"

text \<open>What that loop body stores in the cell \<open>(x, y, z)\<close>, if anything.\<close>

definition cellPiece :: "string \<Rightarrow> bool \<Rightarrow> int \<Rightarrow> int \<Rightarrow> int \<Rightarrow> piece option" where
  "cellPiece rowString isWhite z y x =
     (if rowString ! nat x \<noteq> CHR '' '' then
        map_option (\<lambda>t. \<lparr>ptype = t, color = (if isWhite then White else Black),
                          px = x, py = y, pz = z, hasMoved = False\<rparr>)
          (pieceKey (rowString ! nat x))
      else None)"

text \<open>Lines 25-51: the loops over \<open>z\<close>, \<open>y\<close> and \<open>x\<close>, each from 0 to \<open>SIZE - 1\<close>.\<close>

definition placeLayer :: "int \<Rightarrow> board \<Rightarrow> board" where
  "placeLayer z state =
     (let isWhite = z < 4 in
      case layerPattern z of
        Some pat \<Rightarrow>
          fold (\<lambda>y st. fold (placeCell (pat ! nat y) isWhite z y) [0..SIZE - 1] st)
            [0..SIZE - 1] state
      | None \<Rightarrow> state)"

definition initializeBoardState :: board where
  "initializeBoardState = fold placeLayer [0..SIZE - 1] (\<lambda>c. None)"

section \<open>The session (App.tsx)\<close>

text \<open>
  The React state of the component \<open>App\<close>: one field for each \<open>useState\<close> that the rules
  use (\<open>sidebarWidth\<close> is layout only). \<open>capturedPieces\<close> is an object with the keys
  'white' and 'black'; \<open>promotionData\<close> is \<open>{ piece, x, y, z }\<close> or null.
\<close>

record session =
  boardState :: board
  turn :: color
  selectedPiece :: "piece option"
  validMoves :: "move list"
  capturedPieces :: "color \<Rightarrow> piece list"
  gameStatus :: string
  promotionData :: "(piece \<times> int \<times> int \<times> int) option"

text \<open>
  A handler either runs to its end or throws; the state updates it queued before throwing
  are applied all the same, so both outcomes carry the next state.
\<close>

datatype error = TypeError

datatype outcome = Done session | Threw error session

fun nextState :: "outcome \<Rightarrow> session" where
  "nextState (Done s) = s"
| "nextState (Threw e s) = s"

fun thrown :: "outcome \<Rightarrow> error option" where
  "thrown (Done s) = None"
| "thrown (Threw e s) = Some e"

text \<open>
  Reading and writing \<open>board[x][y][z]\<close>: \<open>board[x]\<close> or \<open>board[x][y]\<close> outside the array is
  undefined, and indexing undefined throws a TypeError.
\<close>

definition get3 :: "board \<Rightarrow> int \<Rightarrow> int \<Rightarrow> int \<Rightarrow> error + piece option" where
  "get3 b x y z =
     (if 0 \<le> x \<and> x < SIZE \<and> 0 \<le> y \<and> y < SIZE then Inr (b (x, y, z)) else Inl TypeError)"

definition set3 :: "board \<Rightarrow> int \<Rightarrow> int \<Rightarrow> int \<Rightarrow> piece option \<Rightarrow> error + board" where
  "set3 b x y z v =
     (if 0 \<le> x \<and> x < SIZE \<and> 0 \<le> y \<and> y < SIZE then Inr (b((x, y, z) := v))
      else Inl TypeError)"

text \<open>
  \<open>JSON.parse(JSON.stringify(boardState))\<close>: a deep copy. Array elements (holes become
  null) and the six fields of each piece survive; a property stored at a negative index of
  a row is not an array element and is dropped.
\<close>

definition JSON_clone :: "board \<Rightarrow> board" where
  "JSON_clone b = (\<lambda>(x, y, z). if z < 0 then None else b (x, y, z))"

text \<open>The effect at lines 18-24, run after each render in which its inputs changed.\<close>

definition useEffect_validMoves :: "session \<Rightarrow> session" where
  "useEffect_validMoves s =
     s\<lparr>validMoves :=
         (case selectedPiece s of
            Some p \<Rightarrow> calculateValidMoves p (boardState s)
          | None \<Rightarrow> [])\<rparr>"

definition toUpperCase :: "color \<Rightarrow> string" where
  "toUpperCase c = (if c = White then ''WHITE'' else ''BLACK'')"

definition opponentColor :: "color \<Rightarrow> color" where
  "opponentColor c = (if c = White then Black else White)"

definition promotionRank :: "color \<Rightarrow> int" where
  "promotionRank c = (if c = White then 7 else 0)"

text \<open>
  Lines 38-47 of executeMove and, word for word, lines 116-125 of handlePromotion:
  \<open>if (targetPiece) { if (targetPiece.type === 'K') setGameStatus(...); setCapturedPieces(...) }\<close>.
\<close>

definition recordCapture :: "session \<Rightarrow> color \<Rightarrow> piece option \<Rightarrow> session" where
  "recordCapture s c targetPiece =
     (case targetPiece of
        None \<Rightarrow> s
      | Some t \<Rightarrow>
          (let s1 = (if ptype t = K then s\<lparr>gameStatus := toUpperCase c @ '' WINS!''\<rparr> else s) in
           s1\<lparr>capturedPieces :=
                (capturedPieces s1)(opponentColor c := capturedPieces s1 (opponentColor c) @ [t])\<rparr>))"

text \<open>Lines 77-79 (and 134-136): the board is replaced, the turn flips, the selection clears.\<close>

definition commitBoard :: "session \<Rightarrow> board \<Rightarrow> session" where
  "commitBoard s newBoardState =
     s\<lparr>boardState := newBoardState,
       turn := (if turn s = White then Black else White),
       selectedPiece := None\<rparr>"

text \<open>
  Lines 55-71: the rook of the castle branch, taken from the edge \<open>edgeX\<close> (7 or 0) and
  put at \<open>newX\<close> (\<open>targetX - 1\<close> or \<open>targetX + 1\<close>). Only \<open>rook.x\<close> and \<open>rook.hasMoved\<close>
  are assigned.
\<close>

definition relocateRook :: "board \<Rightarrow> int \<Rightarrow> int \<Rightarrow> int \<Rightarrow> int \<Rightarrow> error + board" where
  "relocateRook newBoardState edgeX newX targetY targetZ =
     (case get3 newBoardState edgeX targetY targetZ of
        Inl e \<Rightarrow> Inl e
      | Inr None \<Rightarrow> Inr newBoardState
      | Inr (Some rook) \<Rightarrow>
          (case set3 newBoardState edgeX targetY targetZ None of
             Inl e \<Rightarrow> Inl e
           | Inr b1 \<Rightarrow> set3 b1 newX targetY targetZ (Some (rook\<lparr>px := newX, hasMoved := True\<rparr>))))"

text \<open>Lines 26-80.\<close>

definition executeMove :: "session \<Rightarrow> piece \<Rightarrow> int \<Rightarrow> int \<Rightarrow> int \<Rightarrow> move \<Rightarrow> outcome" where
  "executeMove s p targetX targetY targetZ mv =
     (if ptype p = P \<and> targetZ = promotionRank (color p) then
        Done (s\<lparr>promotionData := Some (p, targetX, targetY, targetZ)\<rparr>)
      else
        (let newBoardState = JSON_clone (boardState s) in
         case get3 newBoardState targetX targetY targetZ of
           Inl e \<Rightarrow> Threw e s
         | Inr targetPiece \<Rightarrow>
             (let s1 = recordCapture s (color p) targetPiece;
                  movedPiece = p\<lparr>px := targetX, py := targetY, pz := targetZ, hasMoved := True\<rparr>
              in
              case set3 newBoardState (px p) (py p) (pz p) None of
                Inl e \<Rightarrow> Threw e s1
              | Inr b1 \<Rightarrow>
                  (case set3 b1 targetX targetY targetZ (Some movedPiece) of
                     Inl e \<Rightarrow> Threw e s1
                   | Inr b2 \<Rightarrow>
                       (case castle mv of
                          None \<Rightarrow> Done (commitBoard s1 b2)
                        | Some side \<Rightarrow>
                            (case (if side = KingSide
                                   then relocateRook b2 7 (targetX - 1) targetY targetZ
                                   else relocateRook b2 0 (targetX + 1) targetY targetZ) of
                               Inl e \<Rightarrow> Threw e s1
                             | Inr b3 \<Rightarrow> Done (commitBoard s1 b3)))))))"

text \<open>Lines 83-105. \<open>validMoves.find\<close> returns the first move with the clicked target.\<close>

definition handleSquareClick :: "session \<Rightarrow> int \<Rightarrow> int \<Rightarrow> int \<Rightarrow> outcome" where
  "handleSquareClick s x y z =
     (if gameStatus s \<noteq> ''active'' \<or> promotionData s \<noteq> None then Done s
      else
        (case get3 (boardState s) x y z of
           Inl e \<Rightarrow> Threw e s
         | Inr clickedPiece \<Rightarrow>
             (case selectedPiece s of
                Some sel \<Rightarrow>
                  (case find (\<lambda>m. mx m = x \<and> my m = y \<and> mz m = z) (validMoves s) of
                     Some mv \<Rightarrow> executeMove s sel x y z mv
                   | None \<Rightarrow>
                       (case clickedPiece of
                          Some c \<Rightarrow>
                            if color c = turn s then Done (s\<lparr>selectedPiece := Some c\<rparr>)
                            else Done (s\<lparr>selectedPiece := None\<rparr>)
                        | None \<Rightarrow> Done (s\<lparr>selectedPiece := None\<rparr>)))
              | None \<Rightarrow>
                  (case clickedPiece of
                     Some c \<Rightarrow> if color c = turn s then Done (s\<lparr>selectedPiece := Some c\<rparr>) else Done s
                   | None \<Rightarrow> Done s))))"

text \<open>Lines 107-138. Any \<open>Piece['type']\<close> is taken as \<open>promotedTo\<close>.\<close>

definition handlePromotion :: "session \<Rightarrow> ptype \<Rightarrow> outcome" where
  "handlePromotion s promotedTo =
     (case promotionData s of
        None \<Rightarrow> Done s
      | Some (p, x, y, z) \<Rightarrow>
          (let newBoardState = JSON_clone (boardState s) in
           case set3 newBoardState (px p) (py p) (pz p) None of
             Inl e \<Rightarrow> Threw e s
           | Inr b1 \<Rightarrow>
               (case get3 b1 x y z of
                  Inl e \<Rightarrow> Threw e s
                | Inr targetPiece \<Rightarrow>
                    (let s1 = recordCapture s (color p) targetPiece in
                     case set3 b1 x y z
                            (Some \<lparr>ptype = promotedTo, color = color p,
                                   px = x, py = y, pz = z, hasMoved = True\<rparr>) of
                       Inl e \<Rightarrow> Threw e s1
                     | Inr b2 \<Rightarrow> Done ((commitBoard s1 b2)\<lparr>promotionData := None\<rparr>)))))"

text \<open>The state of the first render (lines 9-16).\<close>

definition initialSession :: session where
  "initialSession =
     \<lparr>boardState = initializeBoardState, turn = White, selectedPiece = None,
      validMoves = [], capturedPieces = (\<lambda>c. []), gameStatus = ''active'',
      promotionData = None\<rparr>"

section \<open>Boards of a game\<close>

text \<open>
  The board invariant of the specification: every piece stores the coordinates of the cell
  that holds it. (That a cell holds at most one piece is the type of a cell,
  \<open>Piece | null\<close>.)
\<close>

definition coordsMatch :: "board \<Rightarrow> bool" where
  "coordsMatch b \<longleftrightarrow> (\<forall>x y z pc. b (x, y, z) = Some pc \<longrightarrow> px pc = x \<and> py pc = y \<and> pz pc = z)"

text \<open>
  The boards that move application and promotion completion can produce from the initial
  board: any call of executeMove (any piece, target and move, castle moves included), of
  handleSquareClick or of handlePromotion, in a session holding a board already reached,
  whether the call runs to its end or throws.
\<close>

inductive reachableBoard :: "board \<Rightarrow> bool" where
  initial: "reachableBoard initializeBoardState"
| move: "reachableBoard (boardState s) \<Longrightarrow>
         reachableBoard (boardState (nextState (executeMove s p targetX targetY targetZ mv)))"
| click: "reachableBoard (boardState s) \<Longrightarrow>
          reachableBoard (boardState (nextState (handleSquareClick s x y z)))"
| promotion: "reachableBoard (boardState s) \<Longrightarrow>
              reachableBoard (boardState (nextState (handlePromotion s promotedTo)))"

section \<open>Scenarios\<close>

text \<open>
  Concrete pieces, boards and sessions on which the theorems below are instantiated. The
  first board is the rook scenario of the specification: a White rook at (3, 3, 3) and a
  Black pawn at (3, 3, 6), nothing else.
\<close>

definition mk_piece :: "ptype \<Rightarrow> color \<Rightarrow> int \<Rightarrow> int \<Rightarrow> int \<Rightarrow> bool \<Rightarrow> piece" where
  "mk_piece t c x y z h = \<lparr>ptype = t, color = c, px = x, py = y, pz = z, hasMoved = h\<rparr>"

definition emptyBoard :: board where
  "emptyBoard = (\<lambda>c. None)"

definition rookScenario :: board where
  "rookScenario =
     emptyBoard((3, 3, 3) := Some (mk_piece R White 3 3 3 False),
                (3, 3, 6) := Some (mk_piece P Black 3 3 6 False))"

definition sessionOn :: "board \<Rightarrow> color \<Rightarrow> piece option \<Rightarrow> session" where
  "sessionOn b t sel =
     useEffect_validMoves
       \<lparr>boardState = b, turn = t, selectedPiece = sel, validMoves = [],
        capturedPieces = (\<lambda>c. []), gameStatus = ''active'', promotionData = None\<rparr>"

text \<open>
  A White pawn at (0, 0, 6), one step from its far rank, next to the Black king at
  (1, 0, 7); and the session in which its promotion on (0, 0, 7) is pending.
\<close>

definition promotionScenario :: board where
  "promotionScenario =
     emptyBoard((0, 0, 6) := Some (mk_piece P White 0 0 6 True),
                (1, 0, 7) := Some (mk_piece K Black 1 0 7 False))"

definition pendingPromotion :: session where
  "pendingPromotion =
     (sessionOn promotionScenario White (Some (mk_piece P White 0 0 6 True)))
       \<lparr>promotionData := Some (mk_piece P White 0 0 6 True, 0, 0, 7)\<rparr>"

text \<open>
  A castle move applied to the initial board: the White king of (4, 3, 0) is sent to
  (6, 3, 0) with the tag 'king'; the rook of (7, 3, 0) is relocated to (5, 3, 0).
\<close>

definition castleMove :: move where
  "castleMove = \<lparr>mx = 6, my = 3, mz = 0, capture = False, castle = Some KingSide\<rparr>"

definition afterCastle :: board where
  "afterCastle =
     boardState (nextState (executeMove initialSession (mk_piece K White 4 3 0 False) 6 3 0 castleMove))"

text \<open>A White rook at (3, 3, 3) facing the Black king at (3, 3, 6).\<close>

definition kingScenario :: board where
  "kingScenario =
     emptyBoard((3, 3, 3) := Some (mk_piece R White 3 3 3 False),
                (3, 3, 6) := Some (mk_piece K Black 3 3 6 False))"

section \<open>Properties of move generation\<close>

lemma fold_append_steps:
  assumes "\<And>d ms. step d ms = ms @ g d"
  shows "fold step ds ms = ms @ concat (map g ds)"
  using assms by (induction ds arbitrary: ms) simp_all

lemma walkRay_unfold:
  "walkRay p b (dx, dy, dz) maxD k ms =
     (if k \<le> maxD then
        (if \<not> isWithinBounds (px p + dx * k) (py p + dy * k) (pz p + dz * k) then ms
         else (case b (px p + dx * k, py p + dy * k, pz p + dz * k) of
                 Some targetPiece \<Rightarrow>
                   if color targetPiece \<noteq> color p
                   then ms @ [mk_move (px p + dx * k) (py p + dy * k) (pz p + dz * k) True]
                   else ms
               | None \<Rightarrow> walkRay p b (dx, dy, dz) maxD (k + 1)
                           (ms @ [mk_move (px p + dx * k) (py p + dy * k) (pz p + dz * k) False])))
      else ms)"
  by (subst walkRay.simps) (simp add: Let_def)

lemma walkRay_append:
  "walkRay p b d maxD k ms = ms @ walkRay p b d maxD k []"
proof (induction "nat (maxD + 1 - k)" arbitrary: k ms)
  case 0
  obtain dx dy dz where d: "d = (dx, dy, dz)" by (cases d) auto
  from 0 have "\<not> k \<le> maxD" by simp
  then show ?case unfolding d by (simp add: walkRay_unfold [of _ _ _ _ _ _ k])
next
  case (Suc n)
  obtain dx dy dz where d: "d = (dx, dy, dz)" by (cases d) auto
  let ?m = "mk_move (px p + dx * k) (py p + dy * k) (pz p + dz * k) False"
  from Suc.hyps(2) have n: "n = nat (maxD + 1 - (k + 1))" by simp
  have ih: "\<And>acc. walkRay p b d maxD (k + 1) acc = acc @ walkRay p b d maxD (k + 1) []"
    using Suc.hyps(1) [OF n] .
  show ?case
  proof (cases "isWithinBounds (px p + dx * k) (py p + dy * k) (pz p + dz * k)
                 \<and> b (px p + dx * k, py p + dy * k, pz p + dz * k) = None")
    case False
    then show ?thesis
      unfolding d
      by (auto simp add: walkRay_unfold [of _ _ _ _ _ _ k] split: option.splits)
  next
    case True
    from Suc.hyps(2) have le: "k \<le> maxD" by simp
    have step: "\<And>acc. walkRay p b d maxD k acc = walkRay p b d maxD (k + 1) (acc @ [?m])"
      unfolding d using True le by (simp add: walkRay_unfold [of _ _ _ _ _ _ k])
    show ?thesis
      using step [of ms] step [of "[]"] ih [of "ms @ [?m]"] ih [of "[?m]"] by simp
  qed
qed

lemma pawnCaptureStep_append:
  "pawnCaptureStep p b d ms = ms @ pawnCaptureStep p b d []"
  by (simp add: pawnCaptureStep_def Let_def split: prod.splits option.splits)

lemma knightStep_append:
  "knightStep p b d ms = ms @ knightStep p b d []"
  by (simp add: knightStep_def Let_def split: prod.splits option.splits)

lemma calculateValidMoves_P:
  "ptype p = P \<Longrightarrow> calculateValidMoves p b =
     pawnForward p b @ concat (map (\<lambda>d. pawnCaptureStep p b d []) (threeDDirections (zDir (color p))))"
proof -
  assume t: "ptype p = P"
  have "fold (pawnCaptureStep p b) (threeDDirections (zDir (color p))) (pawnForward p b)
      = pawnForward p b @ concat (map (\<lambda>d. pawnCaptureStep p b d []) (threeDDirections (zDir (color p))))"
    by (rule fold_append_steps, rule pawnCaptureStep_append)
  with t show ?thesis by (simp add: calculateValidMoves_def)
qed

lemma calculateValidMoves_N:
  "ptype p = N \<Longrightarrow> calculateValidMoves p b =
     concat (map (\<lambda>d. knightStep p b d []) permutations)"
proof -
  assume t: "ptype p = N"
  have "fold (knightStep p b) permutations [] = [] @ concat (map (\<lambda>d. knightStep p b d []) permutations)"
    by (rule fold_append_steps, rule knightStep_append)
  with t show ?thesis by (simp add: calculateValidMoves_def)
qed

lemma calculateValidMoves_sliding:
  "ptype p \<noteq> P \<Longrightarrow> ptype p \<noteq> N \<Longrightarrow> calculateValidMoves p b =
     concat (map (\<lambda>d. walkRay p b d (maxDistance (ptype p)) 1 []) (rayDirections (ptype p)))"
proof -
  assume t: "ptype p \<noteq> P" "ptype p \<noteq> N"
  have "fold (\<lambda>d ms. walkRay p b d (maxDistance (ptype p)) 1 ms) (rayDirections (ptype p)) []
      = [] @ concat (map (\<lambda>d. walkRay p b d (maxDistance (ptype p)) 1 []) (rayDirections (ptype p)))"
    by (rule fold_append_steps, rule walkRay_append)
  with t show ?thesis by (simp add: calculateValidMoves_def)
qed

lemma pawnForward_cases:
  assumes "m \<in> set (pawnForward p b)"
  shows "(m = mk_move (px p) (py p) (pz p + zDir (color p)) False
            \<and> isWithinBounds (px p) (py p) (pz p + zDir (color p)))
       \<or> (m = mk_move (px p) (py p) (pz p + zDir (color p) * 2) False
            \<and> isWithinBounds (px p) (py p) (pz p + zDir (color p) * 2))"
  using assms by (auto simp: pawnForward_def Let_def split: if_splits)

lemma pawnCaptureStep_Nil:
  "pawnCaptureStep p b (dx, dy, dz) [] =
     (if isWithinBounds (px p + dx) (py p + dy) (pz p + dz)
         \<and> (\<exists>t. b (px p + dx, py p + dy, pz p + dz) = Some t \<and> color t \<noteq> color p)
      then [mk_move (px p + dx) (py p + dy) (pz p + dz) True] else [])"
  by (simp add: pawnCaptureStep_def Let_def split: option.splits)

lemma knightStep_Nil:
  "knightStep p b (dx, dy, dz) [] =
     (if isWithinBounds (px p + dx) (py p + dy) (pz p + dz)
         \<and> (\<forall>t. b (px p + dx, py p + dy, pz p + dz) = Some t \<longrightarrow> color t \<noteq> color p)
      then [mk_move (px p + dx) (py p + dy) (pz p + dz)
              (b (px p + dx, py p + dy, pz p + dz) \<noteq> None)]
      else [])"
  by (simp add: knightStep_def Let_def split: option.splits)

lemma pawnCaptureStep_cases:
  assumes "m \<in> set (pawnCaptureStep p b (dx, dy, dz) [])"
  shows "m = mk_move (px p + dx) (py p + dy) (pz p + dz) True
       \<and> isWithinBounds (px p + dx) (py p + dy) (pz p + dz)"
  using assms unfolding pawnCaptureStep_Nil by (simp split: if_splits)

lemma knightStep_cases:
  assumes "m \<in> set (knightStep p b (dx, dy, dz) [])"
  shows "\<exists>c. m = mk_move (px p + dx) (py p + dy) (pz p + dz) c
       \<and> isWithinBounds (px p + dx) (py p + dy) (pz p + dz)"
  using assms unfolding knightStep_Nil by (auto split: if_splits)

lemma walkRay_cases:
  assumes "m \<in> set (walkRay p b (dx, dy, dz) maxD k [])"
  shows "\<exists>j c. m = mk_move (px p + dx * j) (py p + dy * j) (pz p + dz * j) c
       \<and> isWithinBounds (px p + dx * j) (py p + dy * j) (pz p + dz * j)"
  using assms
proof (induction "nat (maxD + 1 - k)" arbitrary: k)
  case 0
  then have "\<not> k \<le> maxD" by simp
  with 0 show ?case by (simp add: walkRay_unfold [of _ _ _ _ _ _ k])
next
  case (Suc n)
  from Suc.hyps(2) have n: "n = nat (maxD + 1 - (k + 1))" and le: "k \<le> maxD" by simp_all
  let ?m = "mk_move (px p + dx * k) (py p + dy * k) (pz p + dz * k)"
  from Suc.prems le
  consider "m = ?m True \<and> isWithinBounds (px p + dx * k) (py p + dy * k) (pz p + dz * k)"
    | "isWithinBounds (px p + dx * k) (py p + dy * k) (pz p + dz * k)
       \<and> m \<in> set (walkRay p b (dx, dy, dz) maxD (k + 1) [?m False])"
    by (auto simp add: walkRay_unfold [of _ _ _ _ _ _ k] split: if_splits option.splits)
  then show ?case
  proof cases
    case 1
    then show ?thesis by blast
  next
    case 2
    then have "m \<in> set ([?m False] @ walkRay p b (dx, dy, dz) maxD (k + 1) [])"
      using walkRay_append [of p b "(dx, dy, dz)" maxD "k + 1" "[?m False]"] by simp
    then have "m = ?m False \<or> m \<in> set (walkRay p b (dx, dy, dz) maxD (k + 1) [])"
      by simp
    then show ?thesis
      using Suc.hyps(1) [OF n] 2 by blast
  qed
qed

lemma calculateValidMoves_shape:
  assumes "m \<in> set (calculateValidMoves p b)"
  shows "\<exists>x y z c. m = mk_move x y z c \<and> isWithinBounds x y z"
proof -
  consider "ptype p = P" | "ptype p = N" | "ptype p \<noteq> P" "ptype p \<noteq> N" by blast
  then show ?thesis
  proof cases
    case 1
    with assms calculateValidMoves_P [OF 1, of b]
    consider "m \<in> set (pawnForward p b)"
      | d where "m \<in> set (pawnCaptureStep p b d [])" by auto
    then show ?thesis
    proof cases
      case 1
      from pawnForward_cases [OF 1] show ?thesis by blast
    next
      case 2
      obtain dx dy dz where "d = (dx, dy, dz)" by (cases d) auto
      with 2 pawnCaptureStep_cases [of m p b dx dy dz] show ?thesis by blast
    qed
  next
    case 2
    with assms calculateValidMoves_N [OF 2, of b]
    obtain d where d: "m \<in> set (knightStep p b d [])" by auto
    obtain dx dy dz where "d = (dx, dy, dz)" by (cases d) auto
    with d knightStep_cases [of m p b dx dy dz] show ?thesis by blast
  next
    case 3
    with assms calculateValidMoves_sliding [OF 3, of b]
    obtain d where d: "m \<in> set (walkRay p b d (maxDistance (ptype p)) 1 [])" by auto
    obtain dx dy dz where "d = (dx, dy, dz)" by (cases d) auto
    with d walkRay_cases [of m p b dx dy dz] show ?thesis by blast
  qed
qed

lemma generated_moves_no_castle_tag:
  "m \<in> set (calculateValidMoves p b) \<Longrightarrow> castle m = None"
  using calculateValidMoves_shape [of m p b]
  by (auto simp: mk_move_def)

text \<open>
  C9. Every move returned by calculateValidMoves, for every piece of every role and every
  board, has its three coordinates inside the board: 0 <= x, y, z < SIZE (= 8). So reading
  a board at the target of a generated move, \<open>board[x][y][z]\<close>, never leaves the arrays:
  it throws no TypeError and returns the content of that cell.
\<close>

theorem generated_moves_within_bounds:
  "m \<in> set (calculateValidMoves p b) \<Longrightarrow>
     0 \<le> mx m \<and> mx m < 8 \<and> 0 \<le> my m \<and> my m < 8 \<and> 0 \<le> mz m \<and> mz m < 8
     \<and> isWithinBounds (mx m) (my m) (mz m)
     \<and> (\<forall>b'. get3 b' (mx m) (my m) (mz m) = Inr (b' (mx m, my m, mz m)))"
  using calculateValidMoves_shape [of m p b]
  by (auto simp: mk_move_def isWithinBounds_def SIZE_def get3_def)

theorem generated_moves_within_bounds_witness:
  "mk_move 3 3 6 True \<in> set (calculateValidMoves (mk_piece R White 3 3 3 False) rookScenario)
   \<and> isWithinBounds 3 3 6
   \<and> get3 rookScenario 3 3 6 = Inr (Some (mk_piece P Black 3 3 6 False))"
proof -
  have h: "mk_move 3 3 6 True \<in> set (calculateValidMoves (mk_piece R White 3 3 3 False) rookScenario)"
    by code_simp
  have c: "rookScenario (3, 3, 6) = Some (mk_piece P Black 3 3 6 False)"
    by (simp add: rookScenario_def)
  from generated_moves_within_bounds [OF h]
  have "isWithinBounds 3 3 6" and "get3 rookScenario 3 3 6 = Inr (rookScenario (3, 3, 6))"
    by (simp_all add: mk_move_def)
  with h c show ?thesis by simp
qed

lemma get3_Inr: "get3 b x y z = Inr v \<Longrightarrow> 0 \<le> x \<and> x < SIZE \<and> 0 \<le> y \<and> y < SIZE \<and> v = b (x, y, z)"
  by (auto simp: get3_def split: if_splits)

lemma set3_Inr: "set3 b x y z v = Inr b' \<Longrightarrow> 0 \<le> x \<and> x < SIZE \<and> 0 \<le> y \<and> y < SIZE \<and> b' = b((x, y, z) := v)"
  by (auto simp: set3_def split: if_splits)

lemma boardState_recordCapture [simp]: "boardState (recordCapture s c t) = boardState s"
  by (simp add: recordCapture_def Let_def split: option.splits)

lemma boardState_commitBoard [simp]: "boardState (commitBoard s b) = b"
  by (simp add: commitBoard_def)

lemma executeMove_plain:
  assumes "castle mv = None" "\<not> (ptype p = P \<and> tz = promotionRank (color p))"
    and "executeMove s p tx ty tz mv = Done s'"
  shows "s' = commitBoard (recordCapture s (color p) (JSON_clone (boardState s) (tx, ty, tz)))
                ((JSON_clone (boardState s))((px p, py p, pz p) := None,
                   (tx, ty, tz) := Some (p\<lparr>px := tx, py := ty, pz := tz, hasMoved := True\<rparr>)))"
  using assms
  by (auto simp: executeMove_def Let_def get3_def set3_def split: if_splits sum.splits)

text \<open>
  C10. No move returned by calculateValidMoves, for any piece and any board, carries a
  castle tag. Hence executeMove, given a generated move, never takes the castle branch: when
  it applies the move (no promotion pending), no cell other than the origin of the moving
  piece and the target differs from the copied board, so no rook is relocated.
\<close>

theorem generated_moves_never_castle:
  assumes "m \<in> set (calculateValidMoves p b)"
  shows "castle m = None \<and>
         (\<forall>s q tx ty tz s' c.
            executeMove s q tx ty tz m = Done s'
            \<and> \<not> (ptype q = P \<and> tz = promotionRank (color q))
            \<and> c \<noteq> (px q, py q, pz q) \<and> c \<noteq> (tx, ty, tz)
            \<longrightarrow> boardState s' c = JSON_clone (boardState s) c)"
proof -
  have tag: "castle m = None"
    using assms by (rule generated_moves_no_castle_tag)
  have "boardState s' c = JSON_clone (boardState s) c"
    if "executeMove s q tx ty tz m = Done s'"
      and "\<not> (ptype q = P \<and> tz = promotionRank (color q))"
      and "c \<noteq> (px q, py q, pz q)" and "c \<noteq> (tx, ty, tz)"
    for s q tx ty tz s' c
    using executeMove_plain [OF tag that(2) that(1)] that(3,4) by simp
  with tag show ?thesis by blast
qed

theorem generated_moves_never_castle_witness:
  "mk_move 3 3 6 True \<in> set (calculateValidMoves (mk_piece R White 3 3 3 False) rookScenario)
   \<and> castle (mk_move 3 3 6 True) = None
   \<and> (case executeMove (sessionOn rookScenario White (Some (mk_piece R White 3 3 3 False)))
              (mk_piece R White 3 3 3 False) 3 3 6 (mk_move 3 3 6 True) of
        Done s' \<Rightarrow> boardState s' (7, 3, 6) = None
      | Threw e s' \<Rightarrow> False)"
proof -
  let ?rook = "mk_piece R White 3 3 3 False"
  let ?s = "sessionOn rookScenario White (Some ?rook)"
  have h: "mk_move 3 3 6 True \<in> set (calculateValidMoves ?rook rookScenario)"
    by code_simp
  have run: "case executeMove ?s ?rook 3 3 6 (mk_move 3 3 6 True) of
               Done s' \<Rightarrow> True | Threw e s' \<Rightarrow> False"
    by code_simp
  then obtain s' where ran: "executeMove ?s ?rook 3 3 6 (mk_move 3 3 6 True) = Done s'"
    by (cases "executeMove ?s ?rook 3 3 6 (mk_move 3 3 6 True)") simp_all
  have np: "\<not> (ptype ?rook = P \<and> (6::int) = promotionRank (color ?rook))"
    by (simp add: mk_piece_def)
  have ne: "(7::int, 3::int, 6::int) \<noteq> (px ?rook, py ?rook, pz ?rook)" "(7::int, 3::int, 6::int) \<noteq> (3, 3, 6)"
    by (simp_all add: mk_piece_def)
  have b: "boardState ?s = rookScenario"
    by (simp add: sessionOn_def useEffect_validMoves_def)
  from generated_moves_never_castle [OF h] ran np ne
  have "castle (mk_move 3 3 6 True) = None"
    and "boardState s' (7, 3, 6) = JSON_clone (boardState ?s) (7, 3, 6)"
    by blast+
  moreover have "JSON_clone rookScenario (7, 3, 6) = None"
    by (simp add: JSON_clone_def rookScenario_def emptyBoard_def)
  ultimately show ?thesis using h ran b by simp
qed

section \<open>Properties of move application\<close>

text \<open>
  C6. If the moving piece is a pawn and the destination z is the far rank of its side
  (z = SIZE - 1 = 7 for White, z = 0 for Black), executeMove stops before anything else: for
  every session, target occupant and move (castle tag or not) it only records the pending
  promotion (the piece and the destination); board, turn, capture tallies, game status and
  selection are unchanged.
\<close>

theorem promotion_halts_before_mutation:
  assumes "ptype p = P"
    and "tz = (if color p = White then SIZE - 1 else 0)"
  shows "executeMove s p tx ty tz mv = Done (s\<lparr>promotionData := Some (p, tx, ty, tz)\<rparr>)
       \<and> (\<exists>s'. executeMove s p tx ty tz mv = Done s'
             \<and> promotionData s' = Some (p, tx, ty, tz)
             \<and> boardState s' = boardState s \<and> turn s' = turn s
             \<and> capturedPieces s' = capturedPieces s \<and> gameStatus s' = gameStatus s
             \<and> selectedPiece s' = selectedPiece s)"
  using assms by (simp add: executeMove_def promotionRank_def SIZE_def)

theorem promotion_halts_before_mutation_witness:
  "ptype (mk_piece P White 0 0 6 True) = P
   \<and> (7::int) = (if color (mk_piece P White 0 0 6 True) = White then SIZE - 1 else 0)
   \<and> promotionScenario (1, 0, 7) = Some (mk_piece K Black 1 0 7 False)
   \<and> executeMove (sessionOn promotionScenario White (Some (mk_piece P White 0 0 6 True)))
        (mk_piece P White 0 0 6 True) 1 0 7 (mk_move 1 0 7 True)
     = Done ((sessionOn promotionScenario White (Some (mk_piece P White 0 0 6 True)))
               \<lparr>promotionData := Some (mk_piece P White 0 0 6 True, 1, 0, 7)\<rparr>)"
proof -
  have h1: "ptype (mk_piece P White 0 0 6 True) = P"
    by (simp add: mk_piece_def)
  have h2: "(7::int) = (if color (mk_piece P White 0 0 6 True) = White then SIZE - 1 else 0)"
    by (simp add: mk_piece_def SIZE_def)
  have "promotionScenario (1, 0, 7) = Some (mk_piece K Black 1 0 7 False)"
    by (simp add: promotionScenario_def)
  with promotion_halts_before_mutation [OF h1 h2] h1 h2 show ?thesis
    by blast
qed

text \<open>
  C7, as the code has it. handlePromotion does not validate the chosen role: for every
  role, King and Pawn included, a pending promotion whose origin and destination lie on the
  board is completed. The destination then holds a piece of the chosen role and of the
  promoting side with the moved-flag set, the pawn's origin cell is empty, the pending
  promotion and the selection are cleared and the turn has passed to the other side.
\<close>

theorem promotion_accepts_every_role:
  assumes "promotionData s = Some (p, x, y, z)"
    and "0 \<le> px p \<and> px p < SIZE \<and> 0 \<le> py p \<and> py p < SIZE"
    and "0 \<le> x \<and> x < SIZE \<and> 0 \<le> y \<and> y < SIZE"
  shows "\<exists>s'. handlePromotion s promotedTo = Done s'
           \<and> boardState s' (x, y, z)
               = Some \<lparr>ptype = promotedTo, color = color p, px = x, py = y, pz = z, hasMoved = True\<rparr>
           \<and> ((px p, py p, pz p) \<noteq> (x, y, z) \<longrightarrow> boardState s' (px p, py p, pz p) = None)
           \<and> promotionData s' = None \<and> selectedPiece s' = None
           \<and> turn s' = opponentColor (turn s)"
  using assms
  by (auto simp: handlePromotion_def Let_def get3_def set3_def commitBoard_def
      opponentColor_def recordCapture_def split: option.splits)

theorem promotion_accepts_every_role_witness:
  "promotionData pendingPromotion = Some (mk_piece P White 0 0 6 True, 0, 0, 7)
   \<and> thrown (handlePromotion pendingPromotion Q) = None
   \<and> boardState (nextState (handlePromotion pendingPromotion Q)) (0, 0, 7)
       = Some (mk_piece Q White 0 0 7 True)
   \<and> boardState (nextState (handlePromotion pendingPromotion Q)) (0, 0, 6) = None
   \<and> turn (nextState (handlePromotion pendingPromotion Q)) = Black"
proof -
  let ?p = "mk_piece P White 0 0 6 True"
  have h1: "promotionData pendingPromotion = Some (?p, 0, 0, 7)"
    by (simp add: pendingPromotion_def)
  have h2: "0 \<le> px ?p \<and> px ?p < SIZE \<and> 0 \<le> py ?p \<and> py ?p < SIZE"
    by (simp add: mk_piece_def SIZE_def)
  have h3: "0 \<le> (0::int) \<and> (0::int) < SIZE \<and> 0 \<le> (0::int) \<and> (0::int) < SIZE"
    by (simp add: SIZE_def)
  have t: "turn pendingPromotion = White"
    by (simp add: pendingPromotion_def sessionOn_def useEffect_validMoves_def)
  from promotion_accepts_every_role [OF h1 h2 h3, of Q]
  obtain s' where "handlePromotion pendingPromotion Q = Done s'"
    and "boardState s' (0, 0, 7)
         = Some \<lparr>ptype = Q, color = color ?p, px = 0, py = 0, pz = 7, hasMoved = True\<rparr>"
    and "(px ?p, py ?p, pz ?p) \<noteq> (0, 0, 7) \<longrightarrow> boardState s' (px ?p, py ?p, pz ?p) = None"
    and "turn s' = opponentColor (turn pendingPromotion)"
    by blast
  with h1 t show ?thesis
    by (simp add: mk_piece_def opponentColor_def)
qed

text \<open>
  C7 as stated fails: completing the pending promotion of the White pawn with the role King
  is not rejected. The handler runs to its end and the board changes: the destination
  (0, 0, 7), empty before, holds a White king.
\<close>

theorem promotion_to_king_counterexample:
  "thrown (handlePromotion pendingPromotion K) = None
   \<and> boardState pendingPromotion (0, 0, 7) = None
   \<and> boardState (nextState (handlePromotion pendingPromotion K)) (0, 0, 7)
       = Some (mk_piece K White 0 0 7 True)"
  by code_simp

section \<open>Properties of the initial board\<close>

lemma placeCell_apply:
  "placeCell row w z y x st c =
     (if c = (x, y, z) \<and> cellPiece row w z y x \<noteq> None then cellPiece row w z y x else st c)"
  by (auto simp: placeCell_def cellPiece_def Let_def split: option.splits)

lemma fold_placeCell:
  "fold (placeCell row w z y) xs st (x', y', z') =
     (if x' \<in> set xs \<and> y' = y \<and> z' = z \<and> cellPiece row w z y x' \<noteq> None
      then cellPiece row w z y x' else st (x', y', z'))"
  by (induction xs arbitrary: st) (auto simp: placeCell_apply)

lemma fold_rows:
  "fold (\<lambda>y st. fold (placeCell (pat ! nat y) w z y) xs st) ys st (x', y', z') =
     (if y' \<in> set ys \<and> x' \<in> set xs \<and> z' = z \<and> cellPiece (pat ! nat y') w z y' x' \<noteq> None
      then cellPiece (pat ! nat y') w z y' x' else st (x', y', z'))"
  by (induction ys arbitrary: st) (auto simp: fold_placeCell)

lemma placeLayer_apply:
  "placeLayer z st (x', y', z') =
     (case layerPattern z of
        Some pat \<Rightarrow>
          if y' \<in> {0..SIZE - 1} \<and> x' \<in> {0..SIZE - 1} \<and> z' = z
             \<and> cellPiece (pat ! nat y') (z < 4) z y' x' \<noteq> None
          then cellPiece (pat ! nat y') (z < 4) z y' x' else st (x', y', z')
      | None \<Rightarrow> st (x', y', z'))"
  by (simp add: placeLayer_def Let_def fold_rows split: option.splits)

lemma fold_placeLayer:
  "fold placeLayer zs st (x', y', z') =
     (if z' \<in> set zs \<and> y' \<in> {0..SIZE - 1} \<and> x' \<in> {0..SIZE - 1}
         \<and> (\<exists>pat. layerPattern z' = Some pat \<and> cellPiece (pat ! nat y') (z' < 4) z' y' x' \<noteq> None)
      then cellPiece (the (layerPattern z') ! nat y') (z' < 4) z' y' x'
      else st (x', y', z'))"
  by (induction zs arbitrary: st) (auto simp: placeLayer_apply split: option.splits)

lemma initializeBoardState_apply:
  "initializeBoardState (x, y, z) =
     (if z \<in> {0..SIZE - 1} \<and> y \<in> {0..SIZE - 1} \<and> x \<in> {0..SIZE - 1}
         \<and> (\<exists>pat. layerPattern z = Some pat \<and> cellPiece (pat ! nat y) (z < 4) z y x \<noteq> None)
      then cellPiece (the (layerPattern z) ! nat y) (z < 4) z y x
      else None)"
  by (simp add: initializeBoardState_def fold_placeLayer)

lemma upto8: "0 \<le> (i::int) \<Longrightarrow> i < 8 \<Longrightarrow> i = 0 \<or> i = 1 \<or> i = 2 \<or> i = 3 \<or> i = 4 \<or> i = 5 \<or> i = 6 \<or> i = 7"
  by arith

lemma pawn_row_cell:
  assumes "0 \<le> x" "x < 8"
  shows "cellPiece PAWN_ROW w z y x
         = Some \<lparr>ptype = P, color = (if w then White else Black), px = x, py = y, pz = z, hasMoved = False\<rparr>"
  using upto8 [OF assms]
  by (elim disjE) (simp_all add: cellPiece_def PAWN_ROW_def pieceKey_def)

lemma major_row_cell:
  assumes "0 \<le> x" "x < 8" "0 \<le> y" "y < 8"
  shows "cellPiece (MAJOR_PIECE_PATTERN ! nat y) w z y x
         = Some \<lparr>ptype = [[R, N, B, R, R, B, N, R],
                          [N, N, B, Q, Q, B, N, N],
                          [B, B, B, Q, Q, B, B, B],
                          [R, Q, Q, Q, K, Q, Q, R],
                          [R, Q, Q, Q, Q, Q, Q, R],
                          [B, B, B, Q, Q, B, B, B],
                          [N, N, B, Q, Q, B, N, N],
                          [R, N, B, R, R, B, N, R]] ! nat y ! nat x,
                 color = (if w then White else Black), px = x, py = y, pz = z, hasMoved = False\<rparr>"
  using upto8 [OF assms(1,2)] upto8 [OF assms(3,4)]
  by (elim disjE) (simp_all add: cellPiece_def MAJOR_PIECE_PATTERN_def pieceKey_def)

text \<open>
  C4. initializeBoardState is a constant of the model (the source function takes no
  argument, reads no state and draws no random number, so every call builds this same
  board). Its content, cell by cell: on the layers z = 0 and z = 7 every cell (x, y) of the
  8 x 8 grid holds the role that the major-piece pattern gives at row y, column x; the layers
  z = 1 and z = 6 are full pawn ranks; every other cell (the layers z = 2 to 5 and everything
  outside the grid) is empty. The pieces of the layers 0 and 1 are White, those of the layers
  6 and 7 Black; every piece stores the coordinates of its cell and has hasMoved = false.
\<close>

theorem initial_board_layout:
  "initializeBoardState (x, y, z) =
     (if 0 \<le> x \<and> x < 8 \<and> 0 \<le> y \<and> y < 8 \<and> (z = 0 \<or> z = 1 \<or> z = 6 \<or> z = 7) then
        Some \<lparr>ptype = (if z = 1 \<or> z = 6 then P
                        else [[R, N, B, R, R, B, N, R],
                              [N, N, B, Q, Q, B, N, N],
                              [B, B, B, Q, Q, B, B, B],
                              [R, Q, Q, Q, K, Q, Q, R],
                              [R, Q, Q, Q, Q, Q, Q, R],
                              [B, B, B, Q, Q, B, B, B],
                              [N, N, B, Q, Q, B, N, N],
                              [R, N, B, R, R, B, N, R]] ! nat y ! nat x),
              color = (if z = 0 \<or> z = 1 then White else Black),
              px = x, py = y, pz = z, hasMoved = False\<rparr>
      else None)"
proof (cases "0 \<le> x \<and> x < 8 \<and> 0 \<le> y \<and> y < 8")
  case False
  then show ?thesis
    by (auto simp: initializeBoardState_apply SIZE_def)
next
  case True
  then have x: "0 \<le> x" "x < 8" and y: "0 \<le> y" "y < 8" by simp_all
  from y have ny: "nat y < 8" by simp
  consider "z = 0" | "z = 1" | "z = 6" | "z = 7" | "z \<noteq> 0" "z \<noteq> 1" "z \<noteq> 6" "z \<noteq> 7"
    by blast
  then show ?thesis
  proof cases
    case 1
    with True major_row_cell [OF x y, of True 0] show ?thesis
      by (simp add: initializeBoardState_apply SIZE_def layerPattern_def)
  next
    case 2
    with True ny pawn_row_cell [OF x, of True 1 y] show ?thesis
      by (simp add: initializeBoardState_apply SIZE_def layerPattern_def)
  next
    case 3
    with True ny pawn_row_cell [OF x, of False 6 y] show ?thesis
      by (simp add: initializeBoardState_apply SIZE_def layerPattern_def)
  next
    case 4
    with True major_row_cell [OF x y, of False 7] show ?thesis
      by (simp add: initializeBoardState_apply SIZE_def layerPattern_def)
  next
    case 5
    then show ?thesis
      by (simp add: initializeBoardState_apply layerPattern_def)
  qed
qed

theorem initial_board_layout_witness:
  "initializeBoardState (4, 3, 0) = Some (mk_piece K White 4 3 0 False)
   \<and> initializeBoardState (0, 1, 1) = Some (mk_piece P White 0 1 1 False)
   \<and> initializeBoardState (2, 5, 4) = None
   \<and> initializeBoardState (7, 7, 6) = Some (mk_piece P Black 7 7 6 False)
   \<and> initializeBoardState (1, 0, 7) = Some (mk_piece N Black 1 0 7 False)"
  using initial_board_layout [of 4 3 0] initial_board_layout [of 0 1 1]
    initial_board_layout [of 2 5 4] initial_board_layout [of 7 7 6]
    initial_board_layout [of 1 0 7]
  by (simp add: mk_piece_def)

section \<open>Pawn moves\<close>

lemma threeDDirections_set:
  "set (threeDDirections dz) =
     {(dx, dy, dz') | dx dy dz'. dx \<in> {-1, 0, 1} \<and> dy \<in> {-1, 0, 1} \<and> (dx, dy) \<noteq> (0, 0) \<and> dz' = dz}"
  by (auto simp: threeDDirections_def)

lemma pawn_moves_set:
  assumes "ptype p = P"
  shows "set (calculateValidMoves p b) =
           set (pawnForward p b) \<union>
           (\<Union>d \<in> set (threeDDirections (zDir (color p))). set (pawnCaptureStep p b d []))"
  by (simp add: calculateValidMoves_P [OF assms])

lemma pawn_capture_mem:
  "m \<in> (\<Union>d \<in> set (threeDDirections dz). set (pawnCaptureStep p b d [])) \<longleftrightarrow>
     (\<exists>dx dy. dx \<in> {-1, 0, 1} \<and> dy \<in> {-1, 0, 1} \<and> (dx, dy) \<noteq> (0, 0)
        \<and> isWithinBounds (px p + dx) (py p + dy) (pz p + dz)
        \<and> (\<exists>t. b (px p + dx, py p + dy, pz p + dz) = Some t \<and> color t \<noteq> color p)
        \<and> m = mk_move (px p + dx) (py p + dy) (pz p + dz) True)"
  unfolding threeDDirections_set
  by (auto simp: pawnCaptureStep_Nil split: if_splits)

lemma pawn_forward_mem:
  "m \<in> set (pawnForward p b) \<longleftrightarrow>
     isWithinBounds (px p) (py p) (pz p + zDir (color p))
     \<and> b (px p, py p, pz p + zDir (color p)) = None
     \<and> (m = mk_move (px p) (py p) (pz p + zDir (color p)) False
        \<or> (pz p = startLayer (color p)
            \<and> isWithinBounds (px p) (py p) (pz p + zDir (color p) * 2)
            \<and> b (px p, py p, pz p + zDir (color p) * 2) = None
            \<and> m = mk_move (px p) (py p) (pz p + zDir (color p) * 2) False))"
  by (auto simp: pawnForward_def Let_def)

lemma mk_move_sel [simp]:
  "mx (mk_move x y z c) = x" "my (mk_move x y z c) = y" "mz (mk_move x y z c) = z"
  "capture (mk_move x y z c) = c" "castle (mk_move x y z c) = None"
  by (simp_all add: mk_move_def)

lemma zDir_nonzero: "zDir c = 1 \<or> zDir c = -1"
  by (simp add: zDir_def)

text \<open>
  C2. For every pawn and every board, with dz = +1 for White and dz = -1 for Black: a move
  to the square one step forward, (x, y, z + dz), is in the generated list iff that square is
  in bounds and empty; a move to the square two steps forward, (x, y, z + 2 dz), is in the
  list iff the pawn stands on the starting rank of its side (z = 1 for White, z = 6 for
  Black) and both the intermediate and the final square are in bounds and empty. The move
  generated is in both cases the one with capture = false (and there is no other move to
  these squares).
\<close>

theorem pawn_forward_steps:
  assumes "ptype p = P"
    and "dz = (if color p = White then 1 else -1)"
    and "startRank = (if color p = White then 1 else 6)"
  shows "((m \<in> set (calculateValidMoves p b) \<and> (mx m, my m, mz m) = (px p, py p, pz p + dz))
            \<longleftrightarrow> (isWithinBounds (px p) (py p) (pz p + dz) \<and> b (px p, py p, pz p + dz) = None
                  \<and> m = \<lparr>mx = px p, my = py p, mz = pz p + dz, capture = False, castle = None\<rparr>))
       \<and> ((m \<in> set (calculateValidMoves p b) \<and> (mx m, my m, mz m) = (px p, py p, pz p + 2 * dz))
            \<longleftrightarrow> (pz p = startRank
                  \<and> isWithinBounds (px p) (py p) (pz p + dz) \<and> b (px p, py p, pz p + dz) = None
                  \<and> isWithinBounds (px p) (py p) (pz p + 2 * dz)
                  \<and> b (px p, py p, pz p + 2 * dz) = None
                  \<and> m = \<lparr>mx = px p, my = py p, mz = pz p + 2 * dz, capture = False, castle = None\<rparr>))"
proof -
  have dz: "dz = zDir (color p)" and sr: "startRank = startLayer (color p)"
    using assms by (simp_all add: zDir_def startLayer_def)
  have nz: "dz = 1 \<or> dz = -1" using assms(2) by auto
  have mem: "m \<in> set (calculateValidMoves p b) \<longleftrightarrow>
      m \<in> set (pawnForward p b)
      \<or> m \<in> (\<Union>d \<in> set (threeDDirections dz). set (pawnCaptureStep p b d []))"
    by (simp add: pawn_moves_set [OF assms(1)] dz)
  have cap1: "\<not> (m \<in> (\<Union>d \<in> set (threeDDirections dz). set (pawnCaptureStep p b d []))
                \<and> mx m = px p \<and> my m = py p)"
    unfolding pawn_capture_mem by auto
  have single: "(m \<in> set (calculateValidMoves p b) \<and> (mx m, my m, mz m) = (px p, py p, pz p + dz))
            \<longleftrightarrow> (isWithinBounds (px p) (py p) (pz p + dz) \<and> b (px p, py p, pz p + dz) = None
                  \<and> m = mk_move (px p) (py p) (pz p + dz) False)"
    using cap1 nz unfolding mem pawn_forward_mem dz [symmetric] by auto
  have double: "(m \<in> set (calculateValidMoves p b) \<and> (mx m, my m, mz m) = (px p, py p, pz p + 2 * dz))
            \<longleftrightarrow> (pz p = startRank
                  \<and> isWithinBounds (px p) (py p) (pz p + dz) \<and> b (px p, py p, pz p + dz) = None
                  \<and> isWithinBounds (px p) (py p) (pz p + 2 * dz)
                  \<and> b (px p, py p, pz p + 2 * dz) = None
                  \<and> m = mk_move (px p) (py p) (pz p + 2 * dz) False)"
    using cap1 nz unfolding mem pawn_forward_mem dz [symmetric] sr [symmetric]
    by (auto simp: mult.commute)
  from single double show ?thesis
    unfolding mk_move_def by blast
qed

theorem pawn_forward_steps_witness:
  "ptype (mk_piece P White 0 1 1 False) = P
   \<and> initializeBoardState (0, 1, 1) = Some (mk_piece P White 0 1 1 False)
   \<and> mk_move 0 1 2 False \<in> set (calculateValidMoves (mk_piece P White 0 1 1 False) initializeBoardState)
   \<and> mk_move 0 1 3 False \<in> set (calculateValidMoves (mk_piece P White 0 1 1 False) initializeBoardState)"
proof -
  let ?p = "mk_piece P White 0 1 1 False"
  have h1: "ptype ?p = P" by (simp add: mk_piece_def)
  have h2: "(1::int) = (if color ?p = White then 1 else -1)" by (simp add: mk_piece_def)
  have h3: "(1::int) = (if color ?p = White then 1 else 6)" by (simp add: mk_piece_def)
  have c: "px ?p = 0" "py ?p = 1" "pz ?p = 1" by (simp_all add: mk_piece_def)
  have e: "initializeBoardState (0, 1, 2) = None" "initializeBoardState (0, 1, 3) = None"
    "initializeBoardState (0, 1, 1) = Some ?p"
    using pawn_row_cell [of 0 True 1 1]
    by (simp_all add: initializeBoardState_apply layerPattern_def SIZE_def mk_piece_def)
  have w: "isWithinBounds 0 1 2" "isWithinBounds 0 1 3"
    by (simp_all add: isWithinBounds_def SIZE_def)
  from pawn_forward_steps [OF h1 h2 h3, of "mk_move 0 1 2 False" initializeBoardState]
  have "mk_move 0 1 2 False \<in> set (calculateValidMoves ?p initializeBoardState)"
    using c e w by (simp add: mk_move_def)
  moreover
  from pawn_forward_steps [OF h1 h2 h3, of "mk_move 0 1 3 False" initializeBoardState]
  have "mk_move 0 1 3 False \<in> set (calculateValidMoves ?p initializeBoardState)"
    using c e w by (simp add: mk_move_def)
  ultimately show ?thesis using h1 e by simp
qed

text \<open>
  C3. For every pawn and every board, with dz the forward direction of the pawn and (dx, dy)
  any of the 8 nonzero combinations of -1, 0, 1: a move to the diagonal square
  (x + dx, y + dy, z + dz) is in the generated list iff that square is in bounds and holds
  a piece of the other side, and the move generated is then the one with capture = true. In
  particular no move to an empty diagonal square is generated.
\<close>

theorem pawn_diagonal_captures:
  assumes "ptype p = P"
    and "dz = (if color p = White then 1 else -1)"
    and "dx \<in> {-1, 0, 1}" and "dy \<in> {-1, 0, 1}" and "(dx, dy) \<noteq> (0, 0)"
  shows "((m \<in> set (calculateValidMoves p b)
            \<and> (mx m, my m, mz m) = (px p + dx, py p + dy, pz p + dz))
          \<longleftrightarrow> (isWithinBounds (px p + dx) (py p + dy) (pz p + dz)
                \<and> (\<exists>t. b (px p + dx, py p + dy, pz p + dz) = Some t \<and> color t \<noteq> color p)
                \<and> m = \<lparr>mx = px p + dx, my = py p + dy, mz = pz p + dz,
                        capture = True, castle = None\<rparr>))
       \<and> (b (px p + dx, py p + dy, pz p + dz) = None \<longrightarrow>
            \<not> (m \<in> set (calculateValidMoves p b)
                \<and> (mx m, my m, mz m) = (px p + dx, py p + dy, pz p + dz)))"
proof -
  have dz: "dz = zDir (color p)"
    using assms(2) by (simp add: zDir_def)
  have mem: "m \<in> set (calculateValidMoves p b) \<longleftrightarrow>
      m \<in> set (pawnForward p b)
      \<or> m \<in> (\<Union>d \<in> set (threeDDirections dz). set (pawnCaptureStep p b d []))"
    by (simp add: pawn_moves_set [OF assms(1)] dz)
  have fwd: "\<not> (m \<in> set (pawnForward p b) \<and> mx m = px p + dx \<and> my m = py p + dy)"
    using assms(5) unfolding pawn_forward_mem by auto
  let ?hit = "isWithinBounds (px p + dx) (py p + dy) (pz p + dz)
                \<and> (\<exists>t. b (px p + dx, py p + dy, pz p + dz) = Some t \<and> color t \<noteq> color p)
                \<and> m = mk_move (px p + dx) (py p + dy) (pz p + dz) True"
  have main: "(m \<in> set (calculateValidMoves p b)
            \<and> (mx m, my m, mz m) = (px p + dx, py p + dy, pz p + dz)) \<longleftrightarrow> ?hit"
  proof
    assume l: "m \<in> set (calculateValidMoves p b)
            \<and> (mx m, my m, mz m) = (px p + dx, py p + dy, pz p + dz)"
    with fwd mem have "m \<in> (\<Union>d \<in> set (threeDDirections dz). set (pawnCaptureStep p b d []))"
      by simp
    then obtain dx' dy' where
        w: "isWithinBounds (px p + dx') (py p + dy') (pz p + dz)"
        and t: "\<exists>t. b (px p + dx', py p + dy', pz p + dz) = Some t \<and> color t \<noteq> color p"
        and m: "m = mk_move (px p + dx') (py p + dy') (pz p + dz) True"
      unfolding pawn_capture_mem by blast
    from l m have "dx' = dx" "dy' = dy" by simp_all
    with w t m show ?hit by simp
  next
    assume ?hit
    with assms(3,4,5) have "m \<in> (\<Union>d \<in> set (threeDDirections dz). set (pawnCaptureStep p b d []))"
      unfolding pawn_capture_mem by blast
    with \<open>?hit\<close> mem show "m \<in> set (calculateValidMoves p b)
            \<and> (mx m, my m, mz m) = (px p + dx, py p + dy, pz p + dz)"
      by simp
  qed
  have "b (px p + dx, py p + dy, pz p + dz) = None \<Longrightarrow> \<not> ?hit"
    by simp
  with main show ?thesis
    unfolding mk_move_def by blast
qed

theorem pawn_diagonal_captures_witness:
  "ptype (mk_piece P White 0 0 6 True) = P
   \<and> promotionScenario (1, 0, 7) = Some (mk_piece K Black 1 0 7 False)
   \<and> promotionScenario (1, 1, 7) = None
   \<and> mk_move 1 0 7 True \<in> set (calculateValidMoves (mk_piece P White 0 0 6 True) promotionScenario)
   \<and> mk_move 1 1 7 True \<notin> set (calculateValidMoves (mk_piece P White 0 0 6 True) promotionScenario)"
proof -
  let ?p = "mk_piece P White 0 0 6 True"
  have h1: "ptype ?p = P" by (simp add: mk_piece_def)
  have h2: "(1::int) = (if color ?p = White then 1 else -1)" by (simp add: mk_piece_def)
  have c: "px ?p = 0" "py ?p = 0" "pz ?p = 6" "color ?p = White" by (simp_all add: mk_piece_def)
  have e: "promotionScenario (1, 0, 7) = Some (mk_piece K Black 1 0 7 False)"
    "promotionScenario (1, 1, 7) = None"
    by (simp_all add: promotionScenario_def emptyBoard_def)
  have w: "isWithinBounds 1 0 7"
    by (simp add: isWithinBounds_def SIZE_def)
  from pawn_diagonal_captures [OF h1 h2, of 1 0 "mk_move 1 0 7 True" promotionScenario]
  have "mk_move 1 0 7 True \<in> set (calculateValidMoves ?p promotionScenario)"
    using c e w by (simp add: mk_move_def mk_piece_def)
  moreover
  from pawn_diagonal_captures [OF h1 h2, of 1 1 "mk_move 1 1 7 True" promotionScenario]
  have "mk_move 1 1 7 True \<notin> set (calculateValidMoves ?p promotionScenario)"
    using c e by (simp add: mk_move_def)
  ultimately show ?thesis using h1 e by simp
qed

section \<open>Sliding moves\<close>

lemma first_hit_step:
  fixes k n :: int
  shows "(\<exists>j. k \<le> j \<and> j \<le> n \<and> (\<forall>i. k \<le> i \<and> i < j \<longrightarrow> Fr i) \<and> St j) \<longleftrightarrow>
         (k \<le> n \<and> St k) \<or>
         (Fr k \<and> (\<exists>j. k + 1 \<le> j \<and> j \<le> n \<and> (\<forall>i. k + 1 \<le> i \<and> i < j \<longrightarrow> Fr i) \<and> St j))"
    (is "?L \<longleftrightarrow> ?A \<or> ?B")
proof
  assume ?L
  then obtain j where j: "k \<le> j" "j \<le> n" "\<forall>i. k \<le> i \<and> i < j \<longrightarrow> Fr i" "St j" by blast
  show "?A \<or> ?B"
  proof (cases "j = k")
    case True
    with j show ?thesis by simp
  next
    case False
    with j have "k + 1 \<le> j" "Fr k" by auto
    moreover from j have "\<forall>i. k + 1 \<le> i \<and> i < j \<longrightarrow> Fr i" by auto
    ultimately have ?B using j by blast
    then show ?thesis ..
  qed
next
  assume "?A \<or> ?B"
  then show ?L
  proof
    assume ?A
    then have "k \<le> k \<and> k \<le> n \<and> (\<forall>i. k \<le> i \<and> i < k \<longrightarrow> Fr i) \<and> St k" by auto
    then show ?L by blast
  next
    assume ?B
    then obtain j where qk: "Fr k" and j: "k + 1 \<le> j" "j \<le> n" "\<forall>i. k + 1 \<le> i \<and> i < j \<longrightarrow> Fr i" "St j"
      by blast
    have "\<forall>i. k \<le> i \<and> i < j \<longrightarrow> Fr i"
    proof (intro allI impI)
      fix i assume "k \<le> i \<and> i < j"
      then have "i = k \<or> (k + 1 \<le> i \<and> i < j)" by auto
      with qk j(3) show "Fr i" by blast
    qed
    with j have "k \<le> j \<and> j \<le> n \<and> (\<forall>i. k \<le> i \<and> i < j \<longrightarrow> Fr i) \<and> St j" by simp
    then show ?L by blast
  qed
qed

lemma walkRay_mem:
  "m \<in> set (walkRay p b (dx, dy, dz) maxD k []) \<longleftrightarrow>
     (\<exists>j. k \<le> j \<and> j \<le> maxD
        \<and> (\<forall>i. k \<le> i \<and> i < j \<longrightarrow>
              isWithinBounds (px p + dx * i) (py p + dy * i) (pz p + dz * i)
              \<and> b (px p + dx * i, py p + dy * i, pz p + dz * i) = None)
        \<and> (isWithinBounds (px p + dx * j) (py p + dy * j) (pz p + dz * j)
           \<and> (case b (px p + dx * j, py p + dy * j, pz p + dz * j) of
                None \<Rightarrow> m = mk_move (px p + dx * j) (py p + dy * j) (pz p + dz * j) False
              | Some t \<Rightarrow> color t \<noteq> color p
                  \<and> m = mk_move (px p + dx * j) (py p + dy * j) (pz p + dz * j) True)))"
proof (induction "nat (maxD + 1 - k)" arbitrary: k)
  case 0
  then have "\<not> k \<le> maxD" by simp
  then show ?case by (auto simp add: walkRay_unfold [of _ _ _ _ _ _ k])
next
  case (Suc n)
  from Suc.hyps(2) have n: "n = nat (maxD + 1 - (k + 1))" and le: "k \<le> maxD" by simp_all
  let ?Fr = "\<lambda>i. isWithinBounds (px p + dx * i) (py p + dy * i) (pz p + dz * i)
              \<and> b (px p + dx * i, py p + dy * i, pz p + dz * i) = None"
  let ?St = "\<lambda>j. isWithinBounds (px p + dx * j) (py p + dy * j) (pz p + dz * j)
           \<and> (case b (px p + dx * j, py p + dy * j, pz p + dz * j) of
                None \<Rightarrow> m = mk_move (px p + dx * j) (py p + dy * j) (pz p + dz * j) False
              | Some t \<Rightarrow> color t \<noteq> color p
                  \<and> m = mk_move (px p + dx * j) (py p + dy * j) (pz p + dz * j) True)"
  have ih: "m \<in> set (walkRay p b (dx, dy, dz) maxD (k + 1) []) \<longleftrightarrow>
     (\<exists>j. k + 1 \<le> j \<and> j \<le> maxD \<and> (\<forall>i. k + 1 \<le> i \<and> i < j \<longrightarrow> ?Fr i) \<and> ?St j)"
    using Suc.hyps(1) [OF n] .
  have app: "walkRay p b (dx, dy, dz) maxD (k + 1)
               [mk_move (px p + dx * k) (py p + dy * k) (pz p + dz * k) False]
             = [mk_move (px p + dx * k) (py p + dy * k) (pz p + dz * k) False]
               @ walkRay p b (dx, dy, dz) maxD (k + 1) []"
    by (rule walkRay_append)
  have "m \<in> set (walkRay p b (dx, dy, dz) maxD k []) \<longleftrightarrow>
          (k \<le> maxD \<and> ?St k) \<or> (?Fr k \<and> m \<in> set (walkRay p b (dx, dy, dz) maxD (k + 1) []))"
    using le by (auto simp add: walkRay_unfold [of _ _ _ _ _ _ k] app split: option.splits)
  also have "\<dots> \<longleftrightarrow> (k \<le> maxD \<and> ?St k) \<or>
      (?Fr k \<and> (\<exists>j. k + 1 \<le> j \<and> j \<le> maxD \<and> (\<forall>i. k + 1 \<le> i \<and> i < j \<longrightarrow> ?Fr i) \<and> ?St j))"
    unfolding ih ..
  also have "\<dots> \<longleftrightarrow> (\<exists>j. k \<le> j \<and> j \<le> maxD \<and> (\<forall>i. k \<le> i \<and> i < j \<longrightarrow> ?Fr i) \<and> ?St j)"
    by (rule first_hit_step [of k maxD ?Fr ?St, symmetric])
  finally show ?case .
qed

lemma set_fold_unique:
  "set (fold (\<lambda>d seen. if d \<in> set seen then seen else seen @ [d]) ds acc) = set acc \<union> set ds"
  by (induction ds arbitrary: acc) auto

lemma set_uniqueDirections: "set (uniqueDirections ds) = set ds"
  by (simp add: uniqueDirections_def set_fold_unique)

lemma all3DDirections_eq:
  "all3DDirections =
    [(-1,-1,-1), (-1,-1,0), (-1,-1,1), (-1,0,-1), (-1,0,0), (-1,0,1), (-1,1,-1), (-1,1,0), (-1,1,1),
     (0,-1,-1), (0,-1,0), (0,-1,1), (0,0,-1), (0,0,1), (0,1,-1), (0,1,0), (0,1,1),
     (1,-1,-1), (1,-1,0), (1,-1,1), (1,0,-1), (1,0,0), (1,0,1), (1,1,-1), (1,1,0), (1,1,1)]"
  by (simp add: all3DDirections_def)

lemma unit_step_unique:
  fixes k k' a a' :: int
  assumes "k * a = k' * a'" "a \<in> {-1, 0, 1}" "a' \<in> {-1, 1}" "1 \<le> k" "1 \<le> k'"
  shows "k = k'"
  using assms by auto


lemma rook_rays:
  "filter (\<lambda>d. absSum d = 1) all3DDirections
   = [(-1,0,0), (0,-1,0), (0,0,-1), (0,0,1), (0,1,0), (1,0,0)]"
  by (simp add: all3DDirections_eq absSum_def)

lemma bishop_rays:
  "filter (\<lambda>d. absSum d > 1) all3DDirections
   = [(-1,-1,-1), (-1,-1,0), (-1,-1,1), (-1,0,-1), (-1,0,1), (-1,1,-1), (-1,1,0), (-1,1,1),
      (0,-1,-1), (0,-1,1), (0,1,-1), (0,1,1),
      (1,-1,-1), (1,-1,0), (1,-1,1), (1,0,-1), (1,0,1), (1,1,-1), (1,1,0), (1,1,1)]"
  by (simp add: all3DDirections_eq absSum_def)

lemma unit3:
  fixes a :: int
  shows "a \<in> {-1, 0, 1} \<longleftrightarrow> a = -1 \<or> a = 0 \<or> a = 1"
  by auto

lemma rook_rays_mem:
  "(dx, dy, dz) \<in> set (filter (\<lambda>d. absSum d = 1) all3DDirections) \<longleftrightarrow>
     dx \<in> {-1, 0, 1} \<and> dy \<in> {-1, 0, 1} \<and> dz \<in> {-1, 0, 1} \<and> \<bar>dx\<bar> + \<bar>dy\<bar> + \<bar>dz\<bar> = 1"
proof
  assume "(dx, dy, dz) \<in> set (filter (\<lambda>d. absSum d = 1) all3DDirections)"
  then show "dx \<in> {-1, 0, 1} \<and> dy \<in> {-1, 0, 1} \<and> dz \<in> {-1, 0, 1} \<and> \<bar>dx\<bar> + \<bar>dy\<bar> + \<bar>dz\<bar> = 1"
    unfolding rook_rays by auto
next
  assume "dx \<in> {-1, 0, 1} \<and> dy \<in> {-1, 0, 1} \<and> dz \<in> {-1, 0, 1} \<and> \<bar>dx\<bar> + \<bar>dy\<bar> + \<bar>dz\<bar> = 1"
  then have "dx = -1 \<or> dx = 0 \<or> dx = 1" "dy = -1 \<or> dy = 0 \<or> dy = 1" "dz = -1 \<or> dz = 0 \<or> dz = 1"
    and "\<bar>dx\<bar> + \<bar>dy\<bar> + \<bar>dz\<bar> = 1" by auto
  then show "(dx, dy, dz) \<in> set (filter (\<lambda>d. absSum d = 1) all3DDirections)"
    unfolding rook_rays by (elim disjE) simp_all
qed

lemma bishop_rays_mem:
  "(dx, dy, dz) \<in> set (filter (\<lambda>d. absSum d > 1) all3DDirections) \<longleftrightarrow>
     dx \<in> {-1, 0, 1} \<and> dy \<in> {-1, 0, 1} \<and> dz \<in> {-1, 0, 1} \<and> \<bar>dx\<bar> + \<bar>dy\<bar> + \<bar>dz\<bar> > 1"
proof
  assume "(dx, dy, dz) \<in> set (filter (\<lambda>d. absSum d > 1) all3DDirections)"
  then show "dx \<in> {-1, 0, 1} \<and> dy \<in> {-1, 0, 1} \<and> dz \<in> {-1, 0, 1} \<and> \<bar>dx\<bar> + \<bar>dy\<bar> + \<bar>dz\<bar> > 1"
    unfolding bishop_rays by auto
next
  assume "dx \<in> {-1, 0, 1} \<and> dy \<in> {-1, 0, 1} \<and> dz \<in> {-1, 0, 1} \<and> \<bar>dx\<bar> + \<bar>dy\<bar> + \<bar>dz\<bar> > 1"
  then have "dx = -1 \<or> dx = 0 \<or> dx = 1" "dy = -1 \<or> dy = 0 \<or> dy = 1" "dz = -1 \<or> dz = 0 \<or> dz = 1"
    and "\<bar>dx\<bar> + \<bar>dy\<bar> + \<bar>dz\<bar> > 1" by auto
  then show "(dx, dy, dz) \<in> set (filter (\<lambda>d. absSum d > 1) all3DDirections)"
    unfolding bishop_rays by (elim disjE) simp_all
qed

lemma rayDirections_mem:
  "(dx, dy, dz) \<in> set (rayDirections t) \<longleftrightarrow>
     dx \<in> {-1, 0, 1} \<and> dy \<in> {-1, 0, 1} \<and> dz \<in> {-1, 0, 1}
     \<and> ((t = R \<or> t = Q \<or> t = K) \<and> \<bar>dx\<bar> + \<bar>dy\<bar> + \<bar>dz\<bar> = 1
        \<or> (t = B \<or> t = Q \<or> t = K) \<and> \<bar>dx\<bar> + \<bar>dy\<bar> + \<bar>dz\<bar> > 1)"
proof -
  have "(dx, dy, dz) \<in> set (rayDirections t) \<longleftrightarrow>
      ((t = R \<or> t = Q \<or> t = K) \<and> (dx, dy, dz) \<in> set (filter (\<lambda>d. absSum d = 1) all3DDirections))
      \<or> ((t = B \<or> t = Q \<or> t = K) \<and> (dx, dy, dz) \<in> set (filter (\<lambda>d. absSum d > 1) all3DDirections))"
    unfolding rayDirections_def set_uniqueDirections by simp
  then show ?thesis
    unfolding rook_rays_mem bishop_rays_mem by blast
qed


lemma ray_unique:
  fixes k k' :: int
  assumes eq: "dx * k = dx' * k'" "dy * k = dy' * k'" "dz * k = dz' * k'"
    and d: "dx \<in> {-1, 0, 1}" "dy \<in> {-1, 0, 1}" "dz \<in> {-1, 0, 1}"
    and d': "dx' \<in> {-1, 0, 1}" "dy' \<in> {-1, 0, 1}" "dz' \<in> {-1, 0, 1}"
      "\<bar>dx'\<bar> + \<bar>dy'\<bar> + \<bar>dz'\<bar> \<ge> 1"
    and k: "1 \<le> k" "1 \<le> k'"
  shows "k = k' \<and> dx = dx' \<and> dy = dy' \<and> dz = dz'"
proof -
  from d' consider "dx' \<in> {-1, 1}" | "dy' \<in> {-1, 1}" | "dz' \<in> {-1, 1}" by auto
  then have kk: "k = k'"
  proof cases
    case 1
    from unit_step_unique [of k dx k' dx'] eq(1) d(1) 1 k show ?thesis
      by (simp add: mult.commute)
  next
    case 2
    from unit_step_unique [of k dy k' dy'] eq(2) d(2) 2 k show ?thesis
      by (simp add: mult.commute)
  next
    case 3
    from unit_step_unique [of k dz k' dz'] eq(3) d(3) 3 k show ?thesis
      by (simp add: mult.commute)
  qed
  with eq k show ?thesis by simp
qed

lemma sliding_mem:
  assumes "ptype p \<noteq> P" "ptype p \<noteq> N"
  shows "m \<in> set (calculateValidMoves p b) \<longleftrightarrow>
     (\<exists>dx dy dz. (dx, dy, dz) \<in> set (rayDirections (ptype p))
        \<and> m \<in> set (walkRay p b (dx, dy, dz) (maxDistance (ptype p)) 1 []))"
  unfolding calculateValidMoves_sliding [OF assms] by auto


text \<open>
  C1. For every Rook, Bishop, Queen or King and every board, the generated moves are exactly
  the result of walking each ray of the piece outward one cell at a time. The rays are the
  unit vectors (dx, dy, dz) with components in -1, 0, 1: those with exactly one nonzero
  component for the Rook, those with more than one for the Bishop, all 26 nonzero ones for
  Queen and King. A move m is generated iff for some ray and some distance k, with
  1 <= k <= 8 (k = 1 only, for the King), every cell of the ray at distance 1 to k - 1 is in
  bounds and empty, the cell at distance k is in bounds, and either it is empty and m is the
  non-capture move to it, or it holds a piece of the other side and m is the capture move
  to it. So the walk continues over empty squares, stops with a capture on an opposing
  piece, stops without a move on an own piece and stops at the boundary. Consequently, if a
  generated move lands at distance k > 1 along a ray, every intermediate cell of that ray is
  empty.
\<close>

theorem sliding_moves_ray_walk:
  assumes "ptype p \<in> {R, B, Q, K}"
  shows "(m \<in> set (calculateValidMoves p b) \<longleftrightarrow>
           (\<exists>dx dy dz k.
              dx \<in> {-1, 0, 1} \<and> dy \<in> {-1, 0, 1} \<and> dz \<in> {-1, 0, 1}
              \<and> (if ptype p = R then \<bar>dx\<bar> + \<bar>dy\<bar> + \<bar>dz\<bar> = 1
                  else if ptype p = B then \<bar>dx\<bar> + \<bar>dy\<bar> + \<bar>dz\<bar> > 1
                  else \<bar>dx\<bar> + \<bar>dy\<bar> + \<bar>dz\<bar> \<ge> 1)
              \<and> 1 \<le> k \<and> k \<le> (if ptype p = K then 1 else 8)
              \<and> (\<forall>j. 1 \<le> j \<and> j < k \<longrightarrow>
                    isWithinBounds (px p + dx * j) (py p + dy * j) (pz p + dz * j)
                    \<and> b (px p + dx * j, py p + dy * j, pz p + dz * j) = None)
              \<and> isWithinBounds (px p + dx * k) (py p + dy * k) (pz p + dz * k)
              \<and> (case b (px p + dx * k, py p + dy * k, pz p + dz * k) of
                    None \<Rightarrow> m = \<lparr>mx = px p + dx * k, my = py p + dy * k, mz = pz p + dz * k,
                                 capture = False, castle = None\<rparr>
                  | Some t \<Rightarrow> color t \<noteq> color p
                      \<and> m = \<lparr>mx = px p + dx * k, my = py p + dy * k, mz = pz p + dz * k,
                              capture = True, castle = None\<rparr>)))
       \<and> (\<forall>dx dy dz k.
             dx \<in> {-1, 0, 1} \<and> dy \<in> {-1, 0, 1} \<and> dz \<in> {-1, 0, 1} \<and> 1 < k
             \<and> m \<in> set (calculateValidMoves p b)
             \<and> (mx m, my m, mz m) = (px p + dx * k, py p + dy * k, pz p + dz * k)
             \<longrightarrow> (\<forall>j. 1 \<le> j \<and> j < k \<longrightarrow>
                    b (px p + dx * j, py p + dy * j, pz p + dz * j) = None))"
proof -
  let ?ray = "\<lambda>dx dy dz. dx \<in> {-1, 0, 1} \<and> dy \<in> {-1, 0, 1} \<and> dz \<in> {-1::int, 0, 1}
              \<and> (if ptype p = R then \<bar>dx\<bar> + \<bar>dy\<bar> + \<bar>dz\<bar> = 1
                  else if ptype p = B then \<bar>dx\<bar> + \<bar>dy\<bar> + \<bar>dz\<bar> > 1
                  else \<bar>dx\<bar> + \<bar>dy\<bar> + \<bar>dz\<bar> \<ge> 1)"
  let ?clear = "\<lambda>dx dy dz k. \<forall>j. 1 \<le> j \<and> j < k \<longrightarrow>
                    isWithinBounds (px p + dx * j) (py p + dy * j) (pz p + dz * j)
                    \<and> b (px p + dx * j, py p + dy * j, pz p + dz * j) = None"
  let ?hit = "\<lambda>dx dy dz k. isWithinBounds (px p + dx * k) (py p + dy * k) (pz p + dz * k)
              \<and> (case b (px p + dx * k, py p + dy * k, pz p + dz * k) of
                    None \<Rightarrow> m = mk_move (px p + dx * k) (py p + dy * k) (pz p + dz * k) False
                  | Some t \<Rightarrow> color t \<noteq> color p
                      \<and> m = mk_move (px p + dx * k) (py p + dy * k) (pz p + dz * k) True)"
  from assms have np: "ptype p \<noteq> P" "ptype p \<noteq> N" by auto
  have ray: "(dx, dy, dz) \<in> set (rayDirections (ptype p)) \<longleftrightarrow> ?ray dx dy dz" for dx dy dz
    unfolding rayDirections_mem using assms by auto
  have maxd: "maxDistance (ptype p) = (if ptype p = K then 1 else 8)"
    by (simp add: maxDistance_def SIZE_def)
  have "m \<in> set (calculateValidMoves p b) \<longleftrightarrow>
      (\<exists>dx dy dz. ?ray dx dy dz \<and> (\<exists>k. 1 \<le> k \<and> k \<le> (if ptype p = K then 1 else 8)
          \<and> ?clear dx dy dz k \<and> ?hit dx dy dz k))"
    unfolding sliding_mem [OF np] ray walkRay_mem maxd ..
  also have "\<dots> \<longleftrightarrow>
      (\<exists>dx dy dz k. ?ray dx dy dz \<and> 1 \<le> k \<and> k \<le> (if ptype p = K then 1 else 8)
          \<and> ?clear dx dy dz k \<and> ?hit dx dy dz k)"
    by (simp only: ex_simps)
  finally have walk: "m \<in> set (calculateValidMoves p b) \<longleftrightarrow>
      (\<exists>dx dy dz k. ?ray dx dy dz \<and> 1 \<le> k \<and> k \<le> (if ptype p = K then 1 else 8)
          \<and> ?clear dx dy dz k \<and> ?hit dx dy dz k)" .
  have noJump: "\<forall>j. 1 \<le> j \<and> j < k \<longrightarrow> b (px p + dx * j, py p + dy * j, pz p + dz * j) = None"
    if d: "dx \<in> {-1, 0, 1}" "dy \<in> {-1, 0, 1}" "dz \<in> {-1, 0, 1}" and k: "1 < k"
      and m: "m \<in> set (calculateValidMoves p b)"
      and t: "(mx m, my m, mz m) = (px p + dx * k, py p + dy * k, pz p + dz * k)"
    for dx dy dz k
  proof -
    from m walk have "\<exists>dx' dy' dz' k'. ?ray dx' dy' dz' \<and> 1 \<le> k'
          \<and> k' \<le> (if ptype p = K then 1 else 8) \<and> ?clear dx' dy' dz' k' \<and> ?hit dx' dy' dz' k'"
      by (rule iffD1 [OF _ _, rotated])
    then obtain dx' dy' dz' k' where
        all: "?ray dx' dy' dz' \<and> 1 \<le> k'
          \<and> k' \<le> (if ptype p = K then 1 else 8) \<and> ?clear dx' dy' dz' k' \<and> ?hit dx' dy' dz' k'"
      by (elim exE)
    from all have r: "?ray dx' dy' dz'" by (rule conjunct1)
    from all have k': "1 \<le> k'" by (elim conjE)
    from all have c: "?clear dx' dy' dz' k'" by (elim conjE)
    from all have h: "?hit dx' dy' dz' k'" by (elim conjE) (rule conjI)
    from h have "(mx m, my m, mz m) = (px p + dx' * k', py p + dy' * k', pz p + dz' * k')"
      by (auto split: option.splits)
    with t have eq: "dx * k = dx' * k'" "dy * k = dy' * k'" "dz * k = dz' * k'"
      by simp_all
    from r have r': "dx' \<in> {-1, 0, 1}" "dy' \<in> {-1, 0, 1}" "dz' \<in> {-1, 0, 1}"
        "\<bar>dx'\<bar> + \<bar>dy'\<bar> + \<bar>dz'\<bar> \<ge> 1"
      by (auto split: if_splits)
    from k have "1 \<le> k" by simp
    from ray_unique [OF eq d r' this k']
    have e: "k' = k" "dx' = dx" "dy' = dy" "dz' = dz" by simp_all
    from c have c': "?clear dx dy dz k" by (simp only: e)
    show ?thesis
    proof (intro allI impI)
      fix j assume "1 \<le> j \<and> j < k"
      with c' have "isWithinBounds (px p + dx * j) (py p + dy * j) (pz p + dz * j)
                    \<and> b (px p + dx * j, py p + dy * j, pz p + dz * j) = None"
        by (elim allE impE) assumption+
      then show "b (px p + dx * j, py p + dy * j, pz p + dz * j) = None"
        by (rule conjunct2)
    qed
  qed
  show ?thesis
  proof (intro conjI allI impI)
    show "m \<in> set (calculateValidMoves p b) \<longleftrightarrow>
           (\<exists>dx dy dz k.
              dx \<in> {-1, 0, 1} \<and> dy \<in> {-1, 0, 1} \<and> dz \<in> {-1, 0, 1}
              \<and> (if ptype p = R then \<bar>dx\<bar> + \<bar>dy\<bar> + \<bar>dz\<bar> = 1
                  else if ptype p = B then \<bar>dx\<bar> + \<bar>dy\<bar> + \<bar>dz\<bar> > 1
                  else \<bar>dx\<bar> + \<bar>dy\<bar> + \<bar>dz\<bar> \<ge> 1)
              \<and> 1 \<le> k \<and> k \<le> (if ptype p = K then 1 else 8)
              \<and> (\<forall>j. 1 \<le> j \<and> j < k \<longrightarrow>
                    isWithinBounds (px p + dx * j) (py p + dy * j) (pz p + dz * j)
                    \<and> b (px p + dx * j, py p + dy * j, pz p + dz * j) = None)
              \<and> isWithinBounds (px p + dx * k) (py p + dy * k) (pz p + dz * k)
              \<and> (case b (px p + dx * k, py p + dy * k, pz p + dz * k) of
                    None \<Rightarrow> m = \<lparr>mx = px p + dx * k, my = py p + dy * k, mz = pz p + dz * k,
                                 capture = False, castle = None\<rparr>
                  | Some t \<Rightarrow> color t \<noteq> color p
                      \<and> m = \<lparr>mx = px p + dx * k, my = py p + dy * k, mz = pz p + dz * k,
                              capture = True, castle = None\<rparr>))"
      using walk unfolding mk_move_def by (simp only: conj_assoc)
  next
    fix dx dy dz k j
    assume a: "dx \<in> {-1, 0, 1} \<and> dy \<in> {-1, 0, 1} \<and> dz \<in> {-1, 0, 1} \<and> 1 < k
             \<and> m \<in> set (calculateValidMoves p b)
             \<and> (mx m, my m, mz m) = (px p + dx * k, py p + dy * k, pz p + dz * k)"
      and j: "1 \<le> j \<and> j < k"
    from a have "\<forall>j. 1 \<le> j \<and> j < k \<longrightarrow> b (px p + dx * j, py p + dy * j, pz p + dz * j) = None"
      by (intro noJump) (elim conjE, assumption)+
    with j show "b (px p + dx * j, py p + dy * j, pz p + dz * j) = None"
      by (elim allE impE) assumption+
  qed
qed


theorem sliding_moves_ray_walk_witness:
  "ptype (mk_piece R White 3 3 3 False) \<in> {R, B, Q, K}
   \<and> mk_move 3 3 6 True \<in> set (calculateValidMoves (mk_piece R White 3 3 3 False) rookScenario)
   \<and> rookScenario (3, 3, 4) = None \<and> rookScenario (3, 3, 5) = None"
proof -
  let ?p = "mk_piece R White 3 3 3 False"
  let ?m = "mk_move 3 3 6 True"
  have h: "ptype ?p \<in> {R, B, Q, K}" by (simp add: mk_piece_def)
  have mem: "?m \<in> set (calculateValidMoves ?p rookScenario)" by code_simp
  have c: "px ?p = 3" "py ?p = 3" "pz ?p = 3" by (simp_all add: mk_piece_def)
  from sliding_moves_ray_walk [OF h, of ?m rookScenario]
  have "\<forall>dx dy dz k.
             dx \<in> {-1, 0, 1} \<and> dy \<in> {-1, 0, 1} \<and> dz \<in> {-1, 0, 1} \<and> 1 < k
             \<and> ?m \<in> set (calculateValidMoves ?p rookScenario)
             \<and> (mx ?m, my ?m, mz ?m) = (px ?p + dx * k, py ?p + dy * k, pz ?p + dz * k)
             \<longrightarrow> (\<forall>j. 1 \<le> j \<and> j < k \<longrightarrow>
                    rookScenario (px ?p + dx * j, py ?p + dy * j, pz ?p + dz * j) = None)"
    by (rule conjunct2)
  from this [rule_format, of 0 0 1 3] mem c
  have clear: "\<And>j. 1 \<le> j \<Longrightarrow> j < 3 \<Longrightarrow> rookScenario (3, 3, 3 + j) = None"
    by simp
  from clear [of 1] clear [of 2] h mem show ?thesis by simp
qed

section \<open>The board invariant\<close>

lemma coordsMatch_clone: "coordsMatch b \<Longrightarrow> coordsMatch (JSON_clone b)"
  by (auto simp: coordsMatch_def JSON_clone_def)

lemma coordsMatch_set3:
  assumes "coordsMatch b" "set3 b x y z v = Inr b'"
    and "\<And>pc. v = Some pc \<Longrightarrow> px pc = x \<and> py pc = y \<and> pz pc = z"
  shows "coordsMatch b'"
proof -
  from set3_Inr [OF assms(2)] have b': "b' = b((x, y, z) := v)" by simp
  show ?thesis
    unfolding coordsMatch_def b'
  proof (intro allI impI)
    fix xa ya za pc
    assume h: "(b((x, y, z) := v)) (xa, ya, za) = Some pc"
    show "px pc = xa \<and> py pc = ya \<and> pz pc = za"
    proof (cases "(xa, ya, za) = (x, y, z)")
      case True
      with h have "v = Some pc" by simp
      from assms(3) [OF this] True show ?thesis by simp
    next
      case False
      with h have "b (xa, ya, za) = Some pc" by (auto split: if_splits)
      with assms(1) show ?thesis by (simp add: coordsMatch_def)
    qed
  qed
qed

lemma coordsMatch_relocateRook:
  assumes "coordsMatch b" "relocateRook b edgeX newX ty tz = Inr b'"
  shows "coordsMatch b'"
proof (cases "get3 b edgeX ty tz")
  case (Inl e)
  with assms show ?thesis by (simp add: relocateRook_def)
next
  case (Inr v)
  show ?thesis
  proof (cases v)
    case None
    with Inr assms show ?thesis by (simp add: relocateRook_def)
  next
    case (Some rook)
    from Inr Some have at: "b (edgeX, ty, tz) = Some rook"
      by (auto dest: get3_Inr)
    with assms(1) have rk: "py rook = ty" "pz rook = tz"
      by (auto simp: coordsMatch_def)
    from assms(2) Inr Some obtain b1 where
        b1: "set3 b edgeX ty tz None = Inr b1"
        and b': "set3 b1 newX ty tz (Some (rook\<lparr>px := newX, hasMoved := True\<rparr>)) = Inr b'"
      by (auto simp: relocateRook_def split: sum.splits)
    from coordsMatch_set3 [OF assms(1) b1] have "coordsMatch b1" by simp
    from coordsMatch_set3 [OF this b'] rk show ?thesis by simp
  qed
qed

lemma boardState_executeMove_cases:
  "boardState (nextState (executeMove s p tx ty tz mv)) = boardState s
   \<or> (\<exists>b1 b2. set3 (JSON_clone (boardState s)) (px p) (py p) (pz p) None = Inr b1
        \<and> set3 b1 tx ty tz (Some (p\<lparr>px := tx, py := ty, pz := tz, hasMoved := True\<rparr>)) = Inr b2
        \<and> (boardState (nextState (executeMove s p tx ty tz mv)) = b2
           \<or> (\<exists>edgeX newX b3. relocateRook b2 edgeX newX ty tz = Inr b3
                \<and> boardState (nextState (executeMove s p tx ty tz mv)) = b3)))"
  by (auto simp: executeMove_def Let_def split: sum.splits option.splits)

lemma coordsMatch_executeMove:
  assumes "coordsMatch (boardState s)"
  shows "coordsMatch (boardState (nextState (executeMove s p tx ty tz mv)))"
proof -
  let ?r = "boardState (nextState (executeMove s p tx ty tz mv))"
  from boardState_executeMove_cases [of s p tx ty tz mv]
  consider "?r = boardState s"
    | b1 b2 where "set3 (JSON_clone (boardState s)) (px p) (py p) (pz p) None = Inr b1"
        "set3 b1 tx ty tz (Some (p\<lparr>px := tx, py := ty, pz := tz, hasMoved := True\<rparr>)) = Inr b2"
        "?r = b2 \<or> (\<exists>edgeX newX b3. relocateRook b2 edgeX newX ty tz = Inr b3 \<and> ?r = b3)"
    by blast
  then show ?thesis
  proof cases
    case 1
    with assms show ?thesis by simp
  next
    case 2
    from coordsMatch_set3 [OF coordsMatch_clone [OF assms] 2(1)] have "coordsMatch b1" by simp
    from coordsMatch_set3 [OF this 2(2)] have b2: "coordsMatch b2" by simp
    from 2(3) show ?thesis
    proof
      assume "?r = b2" with b2 show ?thesis by simp
    next
      assume "\<exists>edgeX newX b3. relocateRook b2 edgeX newX ty tz = Inr b3 \<and> ?r = b3"
      then obtain edgeX newX b3 where "relocateRook b2 edgeX newX ty tz = Inr b3" "?r = b3"
        by blast
      with coordsMatch_relocateRook [OF b2] show ?thesis by simp
    qed
  qed
qed

lemma boardState_handlePromotion_cases:
  assumes "promotionData s = Some (p, x, y, z)"
  shows "boardState (nextState (handlePromotion s promotedTo)) = boardState s
   \<or> (\<exists>b1 b2. set3 (JSON_clone (boardState s)) (px p) (py p) (pz p) None = Inr b1
        \<and> set3 b1 x y z
              (Some \<lparr>ptype = promotedTo, color = color p, px = x, py = y, pz = z, hasMoved = True\<rparr>)
            = Inr b2
        \<and> boardState (nextState (handlePromotion s promotedTo)) = b2)"
  using assms
  by (auto simp: handlePromotion_def Let_def split: sum.splits option.splits)

lemma coordsMatch_handlePromotion:
  assumes "coordsMatch (boardState s)"
  shows "coordsMatch (boardState (nextState (handlePromotion s promotedTo)))"
proof (cases "promotionData s")
  case None
  with assms show ?thesis by (simp add: handlePromotion_def)
next
  case (Some pd)
  obtain p x y z where pd: "pd = (p, x, y, z)" by (cases pd) auto
  let ?r = "boardState (nextState (handlePromotion s promotedTo))"
  let ?new = "\<lparr>ptype = promotedTo, color = color p, px = x, py = y, pz = z, hasMoved = True\<rparr>"
  from boardState_handlePromotion_cases [of s p x y z promotedTo] Some pd
  consider "?r = boardState s"
    | b1 b2 where "set3 (JSON_clone (boardState s)) (px p) (py p) (pz p) None = Inr b1"
        "set3 b1 x y z (Some ?new) = Inr b2" "?r = b2"
    by blast
  then show ?thesis
  proof cases
    case 1
    with assms show ?thesis by simp
  next
    case 2
    from coordsMatch_set3 [OF coordsMatch_clone [OF assms] 2(1)] have "coordsMatch b1" by simp
    from coordsMatch_set3 [OF this 2(2)] 2(3) show ?thesis by simp
  qed
qed

lemma coordsMatch_handleSquareClick:
  assumes "coordsMatch (boardState s)"
  shows "coordsMatch (boardState (nextState (handleSquareClick s x y z)))"
proof -
  have "boardState (nextState (handleSquareClick s x y z)) = boardState s
      \<or> (\<exists>sel mv. handleSquareClick s x y z = executeMove s sel x y z mv)"
    by (auto simp: handleSquareClick_def split: sum.splits option.splits)
  with assms coordsMatch_executeMove [OF assms] show ?thesis by auto
qed

lemma coordsMatch_initial: "coordsMatch initializeBoardState"
  unfolding coordsMatch_def
  by (auto simp: initializeBoardState_apply cellPiece_def split: if_splits)

text \<open>
  C8. Every board reachable from the initial board by move application or promotion
  completion (executeMove with any piece, target and move, the castle branch included;
  handleSquareClick; handlePromotion with any role) keeps the board invariant: every piece
  stores the coordinates of the cell that holds it, the relocated rook of the castle branch
  and the piece created by a promotion included. A cell holds at most one piece (its content
  is one piece or nothing), and no piece is held by two cells.
\<close>

theorem reachable_boards_keep_coordinates:
  assumes "reachableBoard b"
  shows "(\<forall>x y z pc. b (x, y, z) = Some pc \<longrightarrow> px pc = x \<and> py pc = y \<and> pz pc = z)
       \<and> (\<forall>c pc pc'. b c = Some pc \<and> b c = Some pc' \<longrightarrow> pc = pc')
       \<and> (\<forall>c c' pc. b c = Some pc \<and> b c' = Some pc \<longrightarrow> c = c')"
proof -
  from assms have inv: "coordsMatch b"
  proof induction
    case initial
    show ?case by (rule coordsMatch_initial)
  next
    case (move s p targetX targetY targetZ mv)
    then show ?case by (intro coordsMatch_executeMove)
  next
    case (click s x y z)
    then show ?case by (intro coordsMatch_handleSquareClick)
  next
    case (promotion s promotedTo)
    then show ?case by (intro coordsMatch_handlePromotion)
  qed
  have one: "c = c'" if "b c = Some pc" "b c' = Some pc" for c c' pc
  proof -
    obtain x y z where c: "c = (x, y, z)" by (cases c) auto
    obtain x' y' z' where c': "c' = (x', y', z')" by (cases c') auto
    from inv that c have "px pc = x \<and> py pc = y \<and> pz pc = z"
      unfolding coordsMatch_def by blast
    moreover from inv that c' have "px pc = x' \<and> py pc = y' \<and> pz pc = z'"
      unfolding coordsMatch_def by blast
    ultimately show ?thesis using c c' by simp
  qed
  from inv one show ?thesis
    unfolding coordsMatch_def by auto
qed

theorem reachable_boards_keep_coordinates_witness:
  "reachableBoard afterCastle
   \<and> afterCastle (5, 3, 0) = Some (mk_piece R White 5 3 0 True)
   \<and> afterCastle (6, 3, 0) = Some (mk_piece K White 6 3 0 True)
   \<and> (case afterCastle (5, 3, 0) of
        Some pc \<Rightarrow> px pc = 5 \<and> py pc = 3 \<and> pz pc = 0
      | None \<Rightarrow> False)"
proof -
  have "reachableBoard (boardState initialSession)"
    using reachableBoard.initial by (simp add: initialSession_def)
  then have r: "reachableBoard afterCastle"
    unfolding afterCastle_def by (rule reachableBoard.move)
  have e: "afterCastle (5, 3, 0) = Some (mk_piece R White 5 3 0 True)"
    "afterCastle (6, 3, 0) = Some (mk_piece K White 6 3 0 True)"
    by code_simp+
  from reachable_boards_keep_coordinates [OF r]
  have "\<forall>pc. afterCastle (5, 3, 0) = Some pc \<longrightarrow> px pc = 5 \<and> py pc = 3 \<and> pz pc = 0"
    by blast
  with r e show ?thesis by (simp del: piece.simps)
qed

section \<open>King capture and the terminal status\<close>

lemma toUpperCase_WINS_not_active: "toUpperCase c @ '' WINS!'' \<noteq> ''active''"
  by (simp add: toUpperCase_def)

lemma gameStatus_recordCapture_king:
  "ptype k = K \<Longrightarrow> gameStatus (recordCapture s c (Some k)) = toUpperCase c @ '' WINS!''"
  by (simp add: recordCapture_def Let_def)

lemma handleSquareClick_terminal:
  "gameStatus s \<noteq> ''active'' \<Longrightarrow> handleSquareClick s x y z = Done s"
  by (simp add: handleSquareClick_def)

lemma executeMove_king_capture:
  assumes king: "boardState s (tx, ty, tz) = Some k" "ptype k = K"
    and inb: "isWithinBounds tx ty tz" "isWithinBounds (px p) (py p) (pz p)"
    and nopromo: "\<not> (ptype p = P \<and> tz = promotionRank (color p))"
    and nocastle: "castle mv = None"
  shows "executeMove s p tx ty tz mv
         = Done (commitBoard (recordCapture s (color p) (Some k))
                  ((JSON_clone (boardState s))((px p, py p, pz p) := None,
                     (tx, ty, tz) := Some (p\<lparr>px := tx, py := ty, pz := tz, hasMoved := True\<rparr>))))"
  using assms
  by (auto simp add: executeMove_def Let_def get3_def set3_def isWithinBounds_def JSON_clone_def)

lemma handlePromotion_king_capture:
  assumes pd: "promotionData s = Some (p, tx, ty, tz)"
    and king: "boardState s (tx, ty, tz) = Some k" "ptype k = K"
    and inb: "isWithinBounds tx ty tz" "isWithinBounds (px p) (py p) (pz p)"
    and ne: "(px p, py p, pz p) \<noteq> (tx, ty, tz)"
  shows "handlePromotion s promotedTo
         = Done ((commitBoard (recordCapture s (color p) (Some k))
                  ((JSON_clone (boardState s))((px p, py p, pz p) := None,
                     (tx, ty, tz) := Some \<lparr>ptype = promotedTo, color = color p,
                                           px = tx, py = ty, pz = tz, hasMoved = True\<rparr>)))
                 \<lparr>promotionData := None\<rparr>)"
  using assms
  by (auto simp add: handlePromotion_def Let_def get3_def set3_def isWithinBounds_def JSON_clone_def)

text \<open>
  C5, as the code has it. Let the destination of a move hold a King, the destination and
  the moving piece lie on the board and the move carry no castle tag. If the move is not a
  pawn's move onto its far rank, executeMove records the win of the moving side (the status
  becomes 'WHITE WINS!' or 'BLACK WINS!', no longer 'active'), the destination holds the
  moved piece and, on a board that satisfies the board invariant, a captured King of the
  other side is in no cell of the new board. If the move is a pawn's move onto its far
  rank, executeMove only records the pending promotion, and it is the completion of the
  promotion that records the win and replaces the King. In both cases, and whenever the
  status is not 'active', every later square click returns the session as it is: board,
  turn and selection unchanged.
\<close>

theorem king_capture_wins_and_terminal_blocks:
  assumes "boardState s (tx, ty, tz) = Some k" and "ptype k = K"
    and "isWithinBounds tx ty tz" and "isWithinBounds (px p) (py p) (pz p)"
    and "castle mv = None"
  shows "(\<not> (ptype p = P \<and> tz = (if color p = White then 7 else 0)) \<longrightarrow>
            (\<exists>s'. executeMove s p tx ty tz mv = Done s'
               \<and> gameStatus s' = (if color p = White then ''WHITE WINS!'' else ''BLACK WINS!'')
               \<and> gameStatus s' \<noteq> ''active''
               \<and> boardState s' (tx, ty, tz)
                   = Some (p\<lparr>px := tx, py := ty, pz := tz, hasMoved := True\<rparr>)
               \<and> (coordsMatch (boardState s) \<and> color k \<noteq> color p
                    \<longrightarrow> (\<forall>c. boardState s' c \<noteq> Some k))
               \<and> (\<forall>x y z. handleSquareClick s' x y z = Done s')))
       \<and> (ptype p = P \<and> tz = (if color p = White then 7 else 0)
            \<and> (px p, py p, pz p) \<noteq> (tx, ty, tz) \<longrightarrow>
            (\<exists>s'. executeMove s p tx ty tz mv = Done (s\<lparr>promotionData := Some (p, tx, ty, tz)\<rparr>)
               \<and> handlePromotion (s\<lparr>promotionData := Some (p, tx, ty, tz)\<rparr>) promotedTo = Done s'
               \<and> gameStatus s' = (if color p = White then ''WHITE WINS!'' else ''BLACK WINS!'')
               \<and> gameStatus s' \<noteq> ''active''
               \<and> boardState s' (tx, ty, tz)
                   = Some \<lparr>ptype = promotedTo, color = color p,
                           px = tx, py = ty, pz = tz, hasMoved = True\<rparr>
               \<and> (\<forall>x y z. handleSquareClick s' x y z = Done s')))
       \<and> (\<forall>u x y z. gameStatus u \<noteq> ''active'' \<longrightarrow> handleSquareClick u x y z = Done u)"
proof (intro conjI impI allI)
  assume np: "\<not> (ptype p = P \<and> tz = (if color p = White then 7 else 0))"
  then have np': "\<not> (ptype p = P \<and> tz = promotionRank (color p))"
    by (simp add: promotionRank_def)
  let ?moved = "p\<lparr>px := tx, py := ty, pz := tz, hasMoved := True\<rparr>"
  let ?b' = "(JSON_clone (boardState s))((px p, py p, pz p) := None, (tx, ty, tz) := Some ?moved)"
  let ?s' = "commitBoard (recordCapture s (color p) (Some k)) ?b'"
  have run: "executeMove s p tx ty tz mv = Done ?s'"
    by (rule executeMove_king_capture [OF assms(1-4) np' assms(5)])
  have st: "gameStatus ?s' = (if color p = White then ''WHITE WINS!'' else ''BLACK WINS!'')"
    using gameStatus_recordCapture_king [OF assms(2), of s "color p"]
    by (simp add: commitBoard_def toUpperCase_def)
  then have na: "gameStatus ?s' \<noteq> ''active''" by simp
  have cell: "boardState ?s' (tx, ty, tz) = Some ?moved" by simp
  have gone: "\<forall>c. boardState ?s' c \<noteq> Some k"
    if inv: "coordsMatch (boardState s) \<and> color k \<noteq> color p"
  proof
    fix c :: "int \<times> int \<times> int"
    obtain x y z where c: "c = (x, y, z)" by (cases c) auto
    show "boardState ?s' c \<noteq> Some k"
    proof (cases "c = (tx, ty, tz)")
      case True
      with inv show ?thesis by auto
    next
      case False
      from inv assms(1) have kc: "px k = tx \<and> py k = ty \<and> pz k = tz"
        by (simp add: coordsMatch_def)
      show ?thesis
      proof
        assume "boardState ?s' c = Some k"
        with False c have "boardState s (x, y, z) = Some k"
          by (auto simp: JSON_clone_def split: if_splits)
        with inv have "px k = x \<and> py k = y \<and> pz k = z"
          by (simp add: coordsMatch_def)
        with kc c False show False by simp
      qed
    qed
  qed
  have "\<forall>x y z. handleSquareClick ?s' x y z = Done ?s'"
    using handleSquareClick_terminal [OF na] by blast
  with run st na cell gone
  show "\<exists>s'. executeMove s p tx ty tz mv = Done s'
               \<and> gameStatus s' = (if color p = White then ''WHITE WINS!'' else ''BLACK WINS!'')
               \<and> gameStatus s' \<noteq> ''active''
               \<and> boardState s' (tx, ty, tz) = Some ?moved
               \<and> (coordsMatch (boardState s) \<and> color k \<noteq> color p
                    \<longrightarrow> (\<forall>c. boardState s' c \<noteq> Some k))
               \<and> (\<forall>x y z. handleSquareClick s' x y z = Done s')"
    by (intro exI [of _ ?s'] conjI impI)
next
  assume pr: "ptype p = P \<and> tz = (if color p = White then 7 else 0)
            \<and> (px p, py p, pz p) \<noteq> (tx, ty, tz)"
  let ?s1 = "s\<lparr>promotionData := Some (p, tx, ty, tz)\<rparr>"
  let ?new = "\<lparr>ptype = promotedTo, color = color p, px = tx, py = ty, pz = tz, hasMoved = True\<rparr>"
  let ?b' = "(JSON_clone (boardState ?s1))((px p, py p, pz p) := None, (tx, ty, tz) := Some ?new)"
  let ?s' = "(commitBoard (recordCapture ?s1 (color p) (Some k)) ?b')\<lparr>promotionData := None\<rparr>"
  from pr have halt: "executeMove s p tx ty tz mv = Done ?s1"
    by (simp add: executeMove_def promotionRank_def)
  have pd: "promotionData ?s1 = Some (p, tx, ty, tz)" by simp
  have kg: "boardState ?s1 (tx, ty, tz) = Some k" using assms(1) by simp
  from pr have ne: "(px p, py p, pz p) \<noteq> (tx, ty, tz)" by (elim conjE)
  have run: "handlePromotion ?s1 promotedTo = Done ?s'"
    by (rule handlePromotion_king_capture [OF pd kg assms(2-4) ne])
  have st: "gameStatus ?s' = (if color p = White then ''WHITE WINS!'' else ''BLACK WINS!'')"
    using gameStatus_recordCapture_king [OF assms(2), of ?s1 "color p"]
    by (simp add: commitBoard_def toUpperCase_def)
  then have na: "gameStatus ?s' \<noteq> ''active''" by simp
  have cell: "boardState ?s' (tx, ty, tz) = Some ?new" by (simp add: commitBoard_def)
  have "\<forall>x y z. handleSquareClick ?s' x y z = Done ?s'"
    using handleSquareClick_terminal [OF na] by blast
  with halt run st na cell
  show "\<exists>s'. executeMove s p tx ty tz mv = Done ?s1
               \<and> handlePromotion ?s1 promotedTo = Done s'
               \<and> gameStatus s' = (if color p = White then ''WHITE WINS!'' else ''BLACK WINS!'')
               \<and> gameStatus s' \<noteq> ''active''
               \<and> boardState s' (tx, ty, tz) = Some ?new
               \<and> (\<forall>x y z. handleSquareClick s' x y z = Done s')"
    by (intro exI [of _ ?s'] conjI)
next
  fix u :: session and x y z :: int
  assume "gameStatus u \<noteq> ''active''"
  then show "handleSquareClick u x y z = Done u"
    by (rule handleSquareClick_terminal)
qed


theorem king_capture_wins_and_terminal_blocks_witness:
  "boardState (sessionOn kingScenario White (Some (mk_piece R White 3 3 3 False))) (3, 3, 6)
     = Some (mk_piece K Black 3 3 6 False)
   \<and> gameStatus (nextState (executeMove
         (sessionOn kingScenario White (Some (mk_piece R White 3 3 3 False)))
         (mk_piece R White 3 3 3 False) 3 3 6 (mk_move 3 3 6 True))) = ''WHITE WINS!''
   \<and> boardState (nextState (executeMove
         (sessionOn kingScenario White (Some (mk_piece R White 3 3 3 False)))
         (mk_piece R White 3 3 3 False) 3 3 6 (mk_move 3 3 6 True))) (3, 3, 6)
       = Some (mk_piece R White 3 3 6 True)
   \<and> (\<forall>c. boardState (nextState (executeMove
         (sessionOn kingScenario White (Some (mk_piece R White 3 3 3 False)))
         (mk_piece R White 3 3 3 False) 3 3 6 (mk_move 3 3 6 True))) c
       \<noteq> Some (mk_piece K Black 3 3 6 False))
   \<and> handleSquareClick (nextState (executeMove
         (sessionOn kingScenario White (Some (mk_piece R White 3 3 3 False)))
         (mk_piece R White 3 3 3 False) 3 3 6 (mk_move 3 3 6 True))) 3 3 6
       = Done (nextState (executeMove
         (sessionOn kingScenario White (Some (mk_piece R White 3 3 3 False)))
         (mk_piece R White 3 3 3 False) 3 3 6 (mk_move 3 3 6 True)))
   \<and> gameStatus (nextState (handlePromotion
         ((sessionOn promotionScenario White (Some (mk_piece P White 0 0 6 True)))
            \<lparr>promotionData := Some (mk_piece P White 0 0 6 True, 1, 0, 7)\<rparr>) Q)) = ''WHITE WINS!''"
proof -
  let ?rook = "mk_piece R White 3 3 3 False"
  let ?king = "mk_piece K Black 3 3 6 False"
  let ?s = "sessionOn kingScenario White (Some ?rook)"
  let ?mv = "mk_move 3 3 6 True"
  have h1: "boardState ?s (3, 3, 6) = Some ?king"
    by (simp add: sessionOn_def useEffect_validMoves_def kingScenario_def)
  have h2: "ptype ?king = K" by (simp add: mk_piece_def)
  have h3: "isWithinBounds 3 3 6" by (simp add: isWithinBounds_def SIZE_def)
  have h4: "isWithinBounds (px ?rook) (py ?rook) (pz ?rook)"
    by (simp add: isWithinBounds_def SIZE_def mk_piece_def)
  have h5: "castle ?mv = None" by (simp add: mk_move_def)
  have np: "\<not> (ptype ?rook = P \<and> (6::int) = (if color ?rook = White then 7 else 0))"
    by (simp add: mk_piece_def)
  have inv: "coordsMatch (boardState ?s) \<and> color ?king \<noteq> color ?rook"
    by (auto simp: coordsMatch_def sessionOn_def useEffect_validMoves_def kingScenario_def
        emptyBoard_def mk_piece_def split: if_splits)
  from king_capture_wins_and_terminal_blocks [OF h1 h2 h3 h4 h5, of Q] np
  obtain s' where run: "executeMove ?s ?rook 3 3 6 ?mv = Done s'"
    and st: "gameStatus s' = (if color ?rook = White then ''WHITE WINS!'' else ''BLACK WINS!'')"
    and cell: "boardState s' (3, 3, 6) = Some (?rook\<lparr>px := 3, py := 3, pz := 6, hasMoved := True\<rparr>)"
    and gone: "coordsMatch (boardState ?s) \<and> color ?king \<noteq> color ?rook
                 \<longrightarrow> (\<forall>c. boardState s' c \<noteq> Some ?king)"
    and block: "\<forall>x y z. handleSquareClick s' x y z = Done s'"
    by blast
  let ?pawn = "mk_piece P White 0 0 6 True"
  let ?bk = "mk_piece K Black 1 0 7 False"
  let ?t = "sessionOn promotionScenario White (Some ?pawn)"
  have g1: "boardState ?t (1, 0, 7) = Some ?bk"
    by (simp add: sessionOn_def useEffect_validMoves_def promotionScenario_def)
  have g2: "ptype ?bk = K" by (simp add: mk_piece_def)
  have g3: "isWithinBounds 1 0 7" by (simp add: isWithinBounds_def SIZE_def)
  have g4: "isWithinBounds (px ?pawn) (py ?pawn) (pz ?pawn)"
    by (simp add: isWithinBounds_def SIZE_def mk_piece_def)
  have g5: "castle (mk_move 1 0 7 True) = None" by (simp add: mk_move_def)
  have pr: "ptype ?pawn = P \<and> (7::int) = (if color ?pawn = White then 7 else 0)
            \<and> (px ?pawn, py ?pawn, pz ?pawn) \<noteq> (1, 0, 7)"
    by (simp add: mk_piece_def)
  from king_capture_wins_and_terminal_blocks [OF g1 g2 g3 g4 g5, of Q] pr
  obtain t' where
    prun: "handlePromotion (?t\<lparr>promotionData := Some (?pawn, 1, 0, 7)\<rparr>) Q = Done t'"
    and pst: "gameStatus t' = (if color ?pawn = White then ''WHITE WINS!'' else ''BLACK WINS!'')"
    by blast
  from run st cell gone inv block prun pst h1 show ?thesis
    by (simp add: mk_piece_def)
qed

text \<open>
  C5 as stated fails for a pawn that captures a King on its far rank. The White pawn at
  (0, 0, 6) is selected and the square (1, 0, 7), which holds the Black king and is among the
  generated moves, is clicked: the handler runs to its end, the status is still 'active' and
  the King is still on the board; only the pending promotion is recorded.
\<close>

theorem king_capture_by_promoting_pawn_counterexample:
  "promotionScenario (1, 0, 7) = Some (mk_piece K Black 1 0 7 False)
   \<and> mk_move 1 0 7 True
       \<in> set (validMoves (sessionOn promotionScenario White (Some (mk_piece P White 0 0 6 True))))
   \<and> thrown (handleSquareClick
        (sessionOn promotionScenario White (Some (mk_piece P White 0 0 6 True))) 1 0 7) = None
   \<and> gameStatus (nextState (handleSquareClick
        (sessionOn promotionScenario White (Some (mk_piece P White 0 0 6 True))) 1 0 7)) = ''active''
   \<and> boardState (nextState (handleSquareClick
        (sessionOn promotionScenario White (Some (mk_piece P White 0 0 6 True))) 1 0 7)) (1, 0, 7)
       = Some (mk_piece K Black 1 0 7 False)
   \<and> promotionData (nextState (handleSquareClick
        (sessionOn promotionScenario White (Some (mk_piece P White 0 0 6 True))) 1 0 7))
       = Some (mk_piece P White 0 0 6 True, 1, 0, 7)"
  by code_simp

end
